theory Spec2Isabelle
  imports Complex_Main "HOL-Library.Char_ord" "HOL-Library.List_Lexorder"
begin

section \<open>Python values, dictionaries and errors\<close>

text \<open>
  The services exchange JSON objects.  A value is \<open>None\<close>, a number, a string, a
  boolean or a nested object.  Python's binary floating-point numbers are modelled by
  exact rationals: every comparison against a threshold is then exact, and
  \<open>round(x, 2)\<close> is rounding to the nearest hundredth with ties to even.
\<close>

datatype pyval =
    PNone
  | PNum rat
  | PStr string
  | PBool bool
  | PDict "(string \<times> pyval) list"

type_synonym dict = "(string \<times> pyval) list"

datatype py_error =
    KeyError string
  | TypeError
  | ValueError
  | IndexError
  | ZeroDivisionError
  | OverflowError
  | AttributeError
  | UpstreamError

text \<open>\<open>d.get(k)\<close>: a missing key reads as \<open>None\<close>.\<close>

definition dict_get :: "dict \<Rightarrow> string \<Rightarrow> pyval" where
  "dict_get d k = (case map_of d k of None \<Rightarrow> PNone | Some v \<Rightarrow> v)"

text \<open>\<open>d[k]\<close>: a missing key raises \<open>KeyError\<close>.\<close>

definition dict_item :: "dict \<Rightarrow> string \<Rightarrow> py_error + pyval" where
  "dict_item d k = (case map_of d k of None \<Rightarrow> Inl (KeyError k) | Some v \<Rightarrow> Inr v)"

text \<open>\<open>d[k] = v\<close>: replaces the value in place, or appends a new key.\<close>

fun dict_set :: "(string \<times> 'v) list \<Rightarrow> string \<Rightarrow> 'v \<Rightarrow> (string \<times> 'v) list" where
  "dict_set [] k v = [(k, v)]"
| "dict_set ((k', v') # d) k v =
     (if k' = k then (k, v) # d else (k', v') # dict_set d k v)"

text \<open>A number as Python arithmetic sees it: booleans count as 0 and 1.\<close>

fun as_num :: "pyval \<Rightarrow> rat option" where
  "as_num (PNum x) = Some x"
| "as_num (PBool b) = Some (if b then 1 else 0)"
| "as_num _ = None"

text \<open>\<open>round(x, 2)\<close>, ties to even.\<close>

definition py_round2 :: "rat \<Rightarrow> rat" where
  "py_round2 x =
     (let y = x * 100;
          f = \<lfloor>y\<rfloor>;
          d = y - of_int f
      in of_int (if d < 1 / 2 then f
                 else if 1 / 2 < d then f + 1
                 else if even f then f else f + 1) / 100)"

text \<open>\<open>s.replace(a, b)\<close> for single characters.\<close>

definition replace_char :: "char \<Rightarrow> char \<Rightarrow> string \<Rightarrow> string" where
  "replace_char a b s = map (\<lambda>c. if c = a then b else c) s"

section \<open>Hardness and classification (app.py)\<close>

definition CA_FACTOR :: rat where
  "CA_FACTOR = 2497 / 1000"

definition MG_FACTOR :: rat where
  "MG_FACTOR = 4118 / 1000"

text \<open>
  \<open>calculate_total_hardness(ca, mg)\<close>: 0 when either argument is \<open>None\<close>, else the
  rounded weighted sum.  Multiplying a string or an object by a float raises
  \<open>TypeError\<close>.
\<close>

definition calculate_total_hardness :: "pyval \<Rightarrow> pyval \<Rightarrow> py_error + rat" where
  "calculate_total_hardness ca mg =
     (if ca = PNone \<or> mg = PNone then Inr 0
      else case (as_num ca, as_num mg) of
             (Some c, Some m) \<Rightarrow> Inr (py_round2 (c * CA_FACTOR + m * MG_FACTOR))
           | _ \<Rightarrow> Inl TypeError)"

text \<open>
  \<open>classify_water_quality(tds, total_hardness)\<close>.  The hardness branch runs first; the
  comparison \<open>tds <= 500\<close> raises \<open>TypeError\<close> when \<open>tds\<close> is not a number.
\<close>

definition classify_water_quality :: "pyval \<Rightarrow> rat \<Rightarrow> py_error + dict" where
  "classify_water_quality tds total_hardness =
     (let hardness_class =
            (if total_hardness < 60 then ''Soft''
             else if total_hardness < 120 then ''Moderately Hard''
             else if total_hardness < 180 then ''Hard''
             else ''Very Hard'')
      in case as_num tds of
           None \<Rightarrow> Inl TypeError
         | Some t \<Rightarrow>
             Inr [(''hardness_class'', PStr hardness_class),
                  (''tds_status'',
                     PStr (if t \<le> 500 then ''Safe'' else ''Above Recommended Limit'')),
                  (''is_safe_for_drinking'', PBool (t \<le> 500 \<and> total_hardness \<le> 200))])"

text \<open>
  The enrichment both read endpoints apply to a stored record: hardness from
  \<open>record.get('Ca')\<close> and \<open>record.get('Mg')\<close>, then the classification from
  \<open>record['TDS']\<close>.
\<close>

definition enrich :: "dict \<Rightarrow> py_error + dict" where
  "enrich record =
     (case calculate_total_hardness (dict_get record ''Ca'') (dict_get record ''Mg'') of
        Inl e \<Rightarrow> Inl e
      | Inr hardness \<Rightarrow>
          (let record1 = dict_set record ''total_hardness'' (PNum hardness)
           in case dict_item record1 ''TDS'' of
                Inl e \<Rightarrow> Inl e
              | Inr tds \<Rightarrow>
                  (case classify_water_quality tds hardness of
                     Inl e \<Rightarrow> Inl e
                   | Inr c \<Rightarrow> Inr (dict_set record1 ''classification'' (PDict c)))))"

section \<open>Hardness and classification (water_modeler.py)\<close>


definition HARDNESS_STANDARDS :: "string \<Rightarrow> rat" where
  "HARDNESS_STANDARDS k =
     (if k = ''Soft'' then 75
      else if k = ''Moderately Hard'' then 150
      else if k = ''Hard'' then 300
      else 0)"

definition classify_hardness :: "rat \<Rightarrow> string" where
  "classify_hardness hardness =
     (if hardness < HARDNESS_STANDARDS ''Soft'' then ''Soft''
      else if hardness < HARDNESS_STANDARDS ''Moderately Hard'' then ''Moderately Hard''
      else if hardness < HARDNESS_STANDARDS ''Hard'' then ''Hard''
      else ''Very Hard'')"

section \<open>Timestamps and storage keys (app.py, ingest)\<close>

text \<open>
  A \<open>datetime\<close> truncated to seconds.  \<open>valid_datetime\<close> bounds each field as the
  Python type does (the day is bounded by 31 for every month, which admits more values
  than the calendar).
\<close>

record datetime =
  year :: nat
  month :: nat
  day :: nat
  hour :: nat
  minute :: nat
  second :: nat



definition digit_char :: "nat \<Rightarrow> char" where
  "digit_char d = ''0123456789'' ! d"

text \<open>\<open>str(n)\<close> for a natural number: its decimal digits, no padding.\<close>

fun nat_digits :: "nat \<Rightarrow> string" where
  "nat_digits n =
     (if n < 10 then [digit_char n]
      else nat_digits (n div 10) @ [digit_char (n mod 10)])"

declare nat_digits.simps [simp del]

text \<open>\<open>str(i)\<close> for an integer.\<close>

definition py_str :: "int \<Rightarrow> string" where
  "py_str i = (if i < 0 then CHR ''-'' # nat_digits (nat (- i)) else nat_digits (nat i))"

text \<open>A \<open>strftime\<close> field: decimal, zero-padded to the given width.\<close>

definition zero_pad :: "nat \<Rightarrow> nat \<Rightarrow> string" where
  "zero_pad w n = replicate (w - length (nat_digits n)) CHR ''0'' @ nat_digits n"

definition is_digit :: "char \<Rightarrow> bool" where
  "is_digit c \<longleftrightarrow> 48 \<le> (of_char c :: nat) \<and> (of_char c :: nat) \<le> 57"

definition digit_val :: "char \<Rightarrow> int" where
  "digit_val c = int (of_char c) - 48"

text \<open>\<open>int(s)\<close> on a string of decimal digits; anything else raises \<open>ValueError\<close>.\<close>

definition py_int :: "string \<Rightarrow> py_error + int" where
  "py_int s =
     (if s = [] \<or> \<not> list_all is_digit s then Inl ValueError
      else Inr (foldl (\<lambda>a c. 10 * a + digit_val c) 0 s))"

text \<open>\<open>strftime("%Y-%m-%d %H:%M:%S")\<close>.\<close>

definition strftime_iso :: "datetime \<Rightarrow> string" where
  "strftime_iso t =
     zero_pad 4 (year t) @ ''-'' @ zero_pad 2 (month t) @ ''-'' @ zero_pad 2 (day t) @ '' '' @
     zero_pad 2 (hour t) @ '':'' @ zero_pad 2 (minute t) @ '':'' @ zero_pad 2 (second t)"

text \<open>
  \<open>strftime("%Y%m%d%H%M%S")\<close>.  The handler first parses the timestamp string it has
  just produced; that parse returns the same date and time.
\<close>

definition strftime_key :: "datetime \<Rightarrow> string" where
  "strftime_key t =
     zero_pad 4 (year t) @ zero_pad 2 (month t) @ zero_pad 2 (day t) @
     zero_pad 2 (hour t) @ zero_pad 2 (minute t) @ zero_pad 2 (second t)"

text \<open>\<open>reversed_key = str(99999999999999 - int(timestamp_key))\<close>.\<close>

definition reversed_key :: "datetime \<Rightarrow> py_error + string" where
  "reversed_key t =
     (case py_int (strftime_key t) of
        Inl e \<Rightarrow> Inl e
      | Inr n \<Rightarrow> Inr (py_str (99999999999999 - n)))"

section \<open>The reading store and HTTP responses\<close>

text \<open>
  The Firebase reference as the handlers use it: the shallow read of the area keys,
  the key-ordered range read of one area limited to its first \<open>n\<close> children, and the
  write of one child.  Each call either raises or returns.
\<close>

record firebase =
  get_shallow :: "py_error + string list"
  limit_to_first :: "string \<Rightarrow> nat \<Rightarrow> py_error + (string \<times> dict) list"
  set_child :: "string \<Rightarrow> string \<Rightarrow> dict \<Rightarrow> py_error option"

datatype body =
    JError string "py_error option"
  | JMessage string
  | JAreas "string list"
  | JLatest "(string \<times> dict) list"
  | JHistory string nat "dict list"
  | JIngested string string

type_synonym response = "body \<times> nat"

section \<open>Ingestion (app.py)\<close>

definition required_fields :: "string list" where
  "required_fields = [''area'', ''TDS'', ''Ca'', ''Mg'', ''pH'', ''turbidity'', ''chlorine'']"

text \<open>\<open>f"Bearer {os.getenv('IOT_DEVICE_SECRET')}"\<close>: an unset variable prints as \<open>None\<close>.\<close>

definition expected_token :: "string option \<Rightarrow> string" where
  "expected_token secret = ''Bearer '' @ (case secret of None \<Rightarrow> ''None'' | Some s \<Rightarrow> s)"

text \<open>\<open>request.headers.get('Authorization', '')\<close>.\<close>

definition auth_header :: "string option \<Rightarrow> string" where
  "auth_header h = (case h of None \<Rightarrow> [] | Some v \<Rightarrow> v)"

text \<open>
  \<open>ingest_data\<close>.  Arguments: the configured secret, the Authorization header, the
  database reference (\<open>None\<close> when initialisation failed), the JSON body and the clock.
  The result is the response and the list of writes sent to the store.
\<close>

definition ingest_write ::
  "firebase \<Rightarrow> dict \<Rightarrow> datetime \<Rightarrow> response \<times> (string \<times> string \<times> dict) list" where
  "ingest_write db data now =
     (let ts = strftime_iso now;
          data1 = dict_set data ''timestamp'' (PStr ts)
      in case dict_item data1 ''area'' of
           Inl e \<Rightarrow> ((JError ''Internal server error during write'' (Some e), 500), [])
         | Inr (PStr a) \<Rightarrow>
             (let area_key = replace_char CHR '' '' CHR ''_'' a
              in case reversed_key now of
                   Inl e \<Rightarrow> ((JError ''Internal server error during write'' (Some e), 500), [])
                 | Inr k \<Rightarrow>
                     (case set_child db area_key k data1 of
                        Some e \<Rightarrow>
                          ((JError ''Internal server error during write'' (Some e), 500), [])
                      | None \<Rightarrow>
                          ((JIngested ''Data ingested successfully'' ts, 201),
                           [(area_key, k, data1)])))
         | Inr _ \<Rightarrow>
             ((JError ''Internal server error during write'' (Some AttributeError), 500), []))"

definition ingest_data ::
  "string option \<Rightarrow> string option \<Rightarrow> firebase option \<Rightarrow> dict option \<Rightarrow> datetime
     \<Rightarrow> response \<times> (string \<times> string \<times> dict) list" where
  "ingest_data secret authorization DB_REF json now =
     (if auth_header authorization \<noteq> expected_token secret
      then ((JError ''Authentication Failed. Invalid IOT_DEVICE_SECRET.'' None, 401), [])
      else case DB_REF of
             None \<Rightarrow> ((JError ''Database connection error.'' None, 500), [])
           | Some db \<Rightarrow>
               (case json of
                  None \<Rightarrow> ((JError ''Invalid or incomplete data payload.'' None, 400), [])
                | Some data \<Rightarrow>
                    if data = [] \<or> \<not> list_all (\<lambda>field. map_of data field \<noteq> None) required_fields
                    then ((JError ''Invalid or incomplete data payload.'' None, 400), [])
                    else ingest_write db data now))"

section \<open>Query service (app.py)\<close>

definition get_areas :: "firebase option \<Rightarrow> response" where
  "get_areas DB_REF =
     (case DB_REF of
        None \<Rightarrow> (JError ''Database not initialized.'' None, 503)
      | Some db \<Rightarrow>
          (case get_shallow db of
             Inl e \<Rightarrow> (JError ''Internal server error'' (Some e), 500)
           | Inr areas_data \<Rightarrow>
               if areas_data = [] then (JAreas [], 200)
               else (JAreas (map (replace_char CHR ''_'' CHR '' '') areas_data), 200)))"

text \<open>
  The loop of \<open>get_latest\<close> over the area keys.  An area whose range read is empty is
  passed over; an exception anywhere leaves the loop.
\<close>

fun latest_loop ::
  "firebase \<Rightarrow> string list \<Rightarrow> (string \<times> dict) list \<Rightarrow> py_error + (string \<times> dict) list" where
  "latest_loop db [] latest_data = Inr latest_data"
| "latest_loop db (area_key # rest) latest_data =
     (case limit_to_first db area_key 1 of
        Inl e \<Rightarrow> Inl e
      | Inr [] \<Rightarrow> latest_loop db rest latest_data
      | Inr ((k, latest_record) # others) \<Rightarrow>
          (case enrich latest_record of
             Inl e \<Rightarrow> Inl e
           | Inr r \<Rightarrow>
               latest_loop db rest
                 (dict_set latest_data (replace_char CHR ''_'' CHR '' '' area_key) r)))"

definition get_latest :: "firebase option \<Rightarrow> response" where
  "get_latest DB_REF =
     (case DB_REF of
        None \<Rightarrow> (JError ''Database connection error.'' None, 500)
      | Some db \<Rightarrow>
          (case get_shallow db of
             Inl e \<Rightarrow> (JError ''Failed to fetch latest data'' (Some e), 500)
           | Inr all_area_keys \<Rightarrow>
               if all_area_keys = [] then (JMessage ''No data available.'', 200)
               else (case latest_loop db all_area_keys [] of
                       Inl e \<Rightarrow> (JError ''Failed to fetch latest data'' (Some e), 500)
                     | Inr latest_data \<Rightarrow> (JLatest latest_data, 200))))"

text \<open>
  \<open>history.sort(key=lambda x: x['timestamp'])\<close>.  The keys are read first (a record
  without the key raises \<open>KeyError\<close>); strings sort among strings and numbers among
  numbers, and any other comparison raises \<open>TypeError\<close>.  The sort is stable.
\<close>

fun first_error :: "(py_error + 'a) list \<Rightarrow> py_error option" where
  "first_error [] = None"
| "first_error (Inl e # xs) = Some e"
| "first_error (Inr v # xs) = first_error xs"

fun str_of :: "pyval \<Rightarrow> string option" where
  "str_of (PStr s) = Some s"
| "str_of _ = None"

definition sort_by_timestamp :: "dict list \<Rightarrow> py_error + dict list" where
  "sort_by_timestamp history =
     (case first_error (map (\<lambda>x. dict_item x ''timestamp'') history) of
        Some e \<Rightarrow> Inl e
      | None \<Rightarrow>
          if length history \<le> 1 then Inr history
          else if list_all (\<lambda>x. str_of (dict_get x ''timestamp'') \<noteq> None) history
          then Inr (sort_key (\<lambda>x. the (str_of (dict_get x ''timestamp''))) history)
          else if list_all (\<lambda>x. as_num (dict_get x ''timestamp'') \<noteq> None) history
          then Inr (sort_key (\<lambda>x. the (as_num (dict_get x ''timestamp''))) history)
          else Inl TypeError)"

fun enrich_all :: "dict list \<Rightarrow> py_error + dict list" where
  "enrich_all [] = Inr []"
| "enrich_all (record # rest) =
     (case enrich record of
        Inl e \<Rightarrow> Inl e
      | Inr r \<Rightarrow> (case enrich_all rest of Inl e \<Rightarrow> Inl e | Inr rs \<Rightarrow> Inr (r # rs)))"

definition get_history :: "firebase option \<Rightarrow> string option \<Rightarrow> response" where
  "get_history DB_REF area_arg =
     (case area_arg of
        None \<Rightarrow> (JError ''Missing area query parameter.'' None, 400)
      | Some area \<Rightarrow>
          if area = [] then (JError ''Missing area query parameter.'' None, 400)
          else case DB_REF of
                 None \<Rightarrow> (JError ''Database connection error.'' None, 500)
               | Some db \<Rightarrow>
                   (case limit_to_first db (replace_char CHR '' '' CHR ''_'' area) 100 of
                      Inl e \<Rightarrow> (JError ''Failed to fetch history'' (Some e), 500)
                    | Inr data \<Rightarrow>
                        if data = [] then (JMessage (''No data found for '' @ area @ ''.''), 404)
                        else (case sort_by_timestamp (map snd data) of
                                Inl e \<Rightarrow> (JError ''Failed to fetch history'' (Some e), 500)
                              | Inr history \<Rightarrow>
                                  (case enrich_all history of
                                     Inl e \<Rightarrow> (JError ''Failed to fetch history'' (Some e), 500)
                                   | Inr processed_history \<Rightarrow>
                                       (JHistory area (length processed_history)
                                          processed_history, 200)))))"

section \<open>Forecast engine (water_modeler.py)\<close>

text \<open>
  A row of the history frame as pandas holds it: the timestamp parsed by
  \<open>pd.to_datetime\<close>, in microseconds, and the cell of the \<open>TDS\<close> column.  The cell is
  \<open>Absent\<close> when the record has no \<open>TDS\<close> key, \<open>NaN\<close> when the key holds no number.
\<close>

datatype cell = Absent | NaN | Val rat

record hrow =
  ts :: int
  tds :: cell

definition one_day :: int where
  "one_day = 86400000000"

text \<open>\<open>'TDS' in df.columns\<close>: some record carries the key.\<close>

definition has_tds_column :: "hrow list \<Rightarrow> bool" where
  "has_tds_column df = list_ex (\<lambda>r. tds r \<noteq> Absent) df"

text \<open>
  The retry loop of \<open>_get_history_df\<close>.  \<open>fetch n\<close> is the outcome of the \<open>n\<close>-th
  request: an exception (also for an HTTP error status), or the list under \<open>data\<close>.
  The result is the history, if one was obtained, and the delays slept.
\<close>

definition max_retries :: nat where
  "max_retries = 3"

definition base_delay :: rat where
  "base_delay = 1 / 2"

fun retry_loop ::
  "(nat \<Rightarrow> py_error + hrow list) \<Rightarrow> nat \<Rightarrow> nat \<Rightarrow> hrow list option \<times> rat list" where
  "retry_loop fetch attempt 0 = (None, [])"
| "retry_loop fetch attempt (Suc remaining) =
     (let data = (case fetch attempt of Inl e \<Rightarrow> [] | Inr d \<Rightarrow> d)
      in if data \<noteq> [] then (Some data, [])
         else (let sleeps = (if attempt < max_retries
                             then [base_delay * 2 ^ (attempt - 1)] else [])
               in case retry_loop fetch (Suc attempt) remaining of
                    (r, later) \<Rightarrow> (r, sleeps @ later)))"

text \<open>\<open>self.areas.index(area)\<close>: the first position, or \<open>ValueError\<close>.\<close>

fun list_index :: "'a list \<Rightarrow> 'a \<Rightarrow> py_error + nat" where
  "list_index [] a = Inl ValueError"
| "list_index (x # xs) a =
     (if x = a then Inr 0
      else case list_index xs a of Inl e \<Rightarrow> Inl e | Inr i \<Rightarrow> Inr (Suc i))"

text \<open>
  The generated history.  \<open>jitter i\<close> is the \<open>i\<close>-th draw of \<open>random.uniform(-10, 10)\<close>
  and \<open>clock i\<close> the \<open>i\<close>-th reading of \<open>datetime.now()\<close>.
\<close>

definition mock_row :: "nat \<Rightarrow> nat \<Rightarrow> (nat \<Rightarrow> int) \<Rightarrow> (nat \<Rightarrow> rat) \<Rightarrow> nat \<Rightarrow> hrow" where
  "mock_row base_tds limit clock jitter i =
     (let tds_value = of_nat base_tds + jitter i + (of_nat i / 10) * 5
      in \<lparr>ts = clock i - int (limit - 1 - i) * one_day, tds = Val (py_round2 tds_value)\<rparr>)"

definition get_history_df ::
  "string list \<Rightarrow> string \<Rightarrow> nat \<Rightarrow> (nat \<Rightarrow> py_error + hrow list) \<Rightarrow> (nat \<Rightarrow> int) \<Rightarrow>
     (nat \<Rightarrow> rat) \<Rightarrow> py_error + (hrow list \<times> string)" where
  "get_history_df areas area limit fetch clock jitter =
     (case fst (retry_loop fetch 1 max_retries) of
        Some data \<Rightarrow> Inr (data, ''real'')
      | None \<Rightarrow>
          (case list_index areas area of
             Inl e \<Rightarrow> Inl e
           | Inr idx \<Rightarrow>
               (let base_tds = 350 + (idx * 50) mod 200
                in Inr (map (mock_row base_tds limit clock jitter) [0..<limit], ''mock''))))"

text \<open>
  \<open>LinearRegression\<close> of scikit-learn, which is not part of the repository: ordinary
  least squares with an intercept.  For a constant regressor the least-norm solution
  has slope 0.  A target that is not a number makes \<open>fit\<close> raise \<open>ValueError\<close>,
  and so does \<open>predict\<close> on an input with no samples.
\<close>

fun cell_values :: "cell list \<Rightarrow> rat list option" where
  "cell_values [] = Some []"
| "cell_values (Val v # cs) = (case cell_values cs of None \<Rightarrow> None | Some vs \<Rightarrow> Some (v # vs))"
| "cell_values (c # cs) = None"

definition mean :: "rat list \<Rightarrow> rat" where
  "mean xs = sum_list xs / of_nat (length xs)"

definition LinearRegression_fit :: "int list \<Rightarrow> cell list \<Rightarrow> py_error + (rat \<times> rat)" where
  "LinearRegression_fit X y =
     (case cell_values y of
        None \<Rightarrow> Inl ValueError
      | Some ys \<Rightarrow>
          (let xs = map of_int X;
               mx = mean xs;
               my = mean ys;
               sxx = sum_list (map (\<lambda>x. (x - mx) * (x - mx)) xs);
               sxy = sum_list (map (\<lambda>(x, v). (x - mx) * (v - my)) (zip xs ys));
               coef = (if sxx = 0 then 0 else sxy / sxx)
           in Inr (coef, my - coef * mx)))"

definition LinearRegression_predict :: "rat \<times> rat \<Rightarrow> int list \<Rightarrow> py_error + rat list" where
  "LinearRegression_predict model X =
     (if X = [] then Inl ValueError
      else Inr (map (\<lambda>x. snd model + fst model * of_int x) X))"

datatype trend =
    Insufficient
  | TrainingError
  | Stable rat
  | Increasing rat
  | Decreasing rat

record forecast =
  area :: string
  predictions :: "(int \<times> rat) list"
  model_used :: string
  trend_message :: trend
  source :: "string option"

definition series_min :: "int list \<Rightarrow> int" where
  "series_min xs = foldl min (hd xs) (tl xs)"

definition series_max :: "int list \<Rightarrow> int" where
  "series_max xs = foldl max (hd xs) (tl xs)"

text \<open>
  \<open>predict_area_trend\<close>.  The frame is sorted by timestamp (rows with equal timestamps
  keep their order here), the day offset of each row from the earliest one is the
  regressor, and \<open>future_steps\<close> further offsets are predicted.
\<close>

definition predict_from ::
  "string \<Rightarrow> int \<Rightarrow> hrow list \<Rightarrow> string \<Rightarrow> py_error + forecast" where
  "predict_from a future_steps df src =
     (if df = [] \<or> \<not> has_tds_column df
      then Inr \<lparr>area = a, predictions = [], model_used = ''None'',
                trend_message = Insufficient, source = Some src\<rparr>
      else
        (let df_history = sort_key ts df;
             t0 = series_min (map ts df_history);
             time_index = map (\<lambda>r. (ts r - t0) div one_day) df_history;
             y = map tds df_history
         in case LinearRegression_fit time_index y of
              Inl e \<Rightarrow>
                Inr \<lparr>area = a, predictions = [], model_used = ''LinearRegression'',
                     trend_message = TrainingError, source = None\<rparr>
            | Inr model \<Rightarrow>
                (let last_index = series_max time_index;
                     future_indices = [last_index + 1 .. last_index + future_steps]
                 in case LinearRegression_predict model future_indices of
                      Inl e \<Rightarrow> Inl e
                    | Inr predicted_tds \<Rightarrow>
                        (let t_max = series_max (map ts df_history);
                             preds = map (\<lambda>(i, v). (t_max + (int i + 1) * one_day, v))
                                       (zip [0..<length predicted_tds] predicted_tds)
                         in case (cell_values [last y], predicted_tds = []) of
                              (Some [current_tds], False) \<Rightarrow>
                                (let tds_change = last predicted_tds - current_tds;
                                     msg = (if \<bar>tds_change\<bar> < 5 then Stable tds_change
                                            else if 0 < tds_change then Increasing tds_change
                                            else Decreasing tds_change)
                                 in Inr \<lparr>area = a, predictions = preds,
                                          model_used = ''LinearRegression'',
                                          trend_message = msg, source = Some src\<rparr>)
                            | _ \<Rightarrow> Inl IndexError))))"

definition predict_area_trend ::
  "string list \<Rightarrow> string \<Rightarrow> int \<Rightarrow> (nat \<Rightarrow> py_error + hrow list) \<Rightarrow> (nat \<Rightarrow> int) \<Rightarrow>
     (nat \<Rightarrow> rat) \<Rightarrow> py_error + forecast" where
  "predict_area_trend areas a future_steps fetch clock jitter =
     (case get_history_df areas a 30 fetch clock jitter of
        Inl e \<Rightarrow> Inl e
      | Inr (df, src) \<Rightarrow> predict_from a future_steps df src)"

section \<open>Treatment jobs (ml_api.py)\<close>

text \<open>
  An entry of the \<open>JOBS\<close> dictionary.  (The key \<open>area\<close> of the entry is the field
  \<open>job_area\<close>, to keep it apart from the forecast's.)
\<close>

record job_result =
  final_hardness_mg_l :: "rat option"
  result_device :: string
  result_area :: string
  result_volume_liters :: rat

record job =
  job_id :: string
  status :: string
  progress :: int
  job_area :: string
  device :: string
  volume_liters :: rat
  estimated_minutes :: "rat option"
  result :: "job_result option"
  error :: "py_error option"

text \<open>
  \<open>start_treatment\<close>, after the request fields are converted: the answer is the 400
  error, or the job as registered together with the worker's duration and hardness
  arguments (\<open>est_minutes or 0.0\<close> and \<open>current_hardness or 0.0\<close>).
\<close>

definition start_treatment ::
  "string \<Rightarrow> string option \<Rightarrow> string option \<Rightarrow> rat \<Rightarrow> rat \<Rightarrow> rat option
     \<Rightarrow> string + (job \<times> rat \<times> rat)" where
  "start_treatment new_id area_arg device_arg volume flow_L_per_min current_hardness =
     (case (area_arg, device_arg) of
        (Some a, Some d) \<Rightarrow>
          if a = [] \<or> d = [] \<or> \<not> 0 < volume
          then Inl ''Missing parameters (area, device, volume_liters)''
          else
            (let est_minutes = (if 0 < flow_L_per_min then Some (volume / flow_L_per_min)
                                else None)
             in Inr (\<lparr>job_id = new_id, status = ''queued'', progress = 0, job_area = a,
                       device = d, volume_liters = volume, estimated_minutes = est_minutes,
                       result = None, error = None\<rparr>,
                     (case est_minutes of None \<Rightarrow> 0 | Some m \<Rightarrow> m),
                     (case current_hardness of None \<Rightarrow> 0 | Some h \<Rightarrow> h)))
      | _ \<Rightarrow> Inl ''Missing parameters (area, device, volume_liters)'')"

definition steps :: nat where
  "steps = 10"

text \<open>The exception handler of the worker: two writes under the lock.\<close>

definition fail_job :: "job \<Rightarrow> py_error \<Rightarrow> job list" where
  "fail_job j e = (let j1 = j\<lparr>status := ''failed''\<rparr> in [j1, j1\<lparr>error := Some e\<rparr>])"

text \<open>
  The progress loop from step \<open>i\<close> with \<open>n\<close> steps to go.  \<open>sleep_raises i d\<close> tells
  whether the \<open>i\<close>-th call \<open>sleep(d)\<close> raises.  The result is the list of the job's
  states after each write, and the exception or the job reached.
\<close>

fun progress_loop ::
  "(nat \<Rightarrow> rat \<Rightarrow> py_error option) \<Rightarrow> rat \<Rightarrow> nat \<Rightarrow> nat \<Rightarrow> job
     \<Rightarrow> job list \<times> (py_error + job)" where
  "progress_loop sleep_raises step_sleep i 0 j = ([], Inr j)"
| "progress_loop sleep_raises step_sleep i (Suc n) j =
     (case sleep_raises i step_sleep of
        Some e \<Rightarrow> ([], Inl e)
      | None \<Rightarrow>
          (let j' = j\<lparr>progress := \<lfloor>(of_nat (i + 1) / of_nat steps) * (100 :: rat)\<rfloor>\<rparr>
           in case progress_loop sleep_raises step_sleep (Suc i) n j' of
                (tr, r) \<Rightarrow> (j' # tr, r)))"

text \<open>
  \<open>_run_treatment_job\<close>: the states of the job after each write of the worker, in
  order.  \<open>scale_env\<close> is the outcome of reading \<open>TREATMENT_TIME_SCALE\<close> as a float.
\<close>

definition run_treatment_job ::
  "job \<Rightarrow> (py_error + rat) \<Rightarrow> (nat \<Rightarrow> rat \<Rightarrow> py_error option) \<Rightarrow> rat \<Rightarrow> string \<Rightarrow> string
     \<Rightarrow> rat \<Rightarrow> rat option \<Rightarrow> rat \<Rightarrow> job list" where
  "run_treatment_job j scale_env sleep_raises duration_minutes dev a volume current_hardness
       removal_efficiency =
     (let j1 = j\<lparr>status := ''running''\<rparr>;
          j2 = j1\<lparr>progress := 0\<rparr>
      in [j1, j2] @
         (case scale_env of
            Inl e \<Rightarrow> fail_job j2 e
          | Inr scale \<Rightarrow>
              if scale = 0 then fail_job j2 ZeroDivisionError
              else
                (let sleep_seconds = max (1 / 10) (duration_minutes / scale);
                     step_sleep = sleep_seconds / of_nat steps
                 in case progress_loop sleep_raises step_sleep 0 steps j2 of
                      (tr, Inl e) \<Rightarrow> tr @ fail_job (last (j2 # tr)) e
                    | (tr, Inr j3) \<Rightarrow>
                        (let final_hardness =
                               (case current_hardness of
                                  None \<Rightarrow> None
                                | Some h \<Rightarrow> Some (max 0 ((1 - removal_efficiency) * h)));
                             j4 = j3\<lparr>status := ''completed''\<rparr>;
                             j5 = j4\<lparr>progress := 100\<rparr>;
                             j6 = j5\<lparr>result := Some
                                    \<lparr>final_hardness_mg_l = map_option py_round2 final_hardness,
                                     result_device = dev, result_area = a,
                                     result_volume_liters = volume\<rparr>\<rparr>
                         in tr @ [j4, j5, j6]))))"

text \<open>\<open>job_status\<close>: the entry, or the not-found answer.\<close>

definition job_status :: "(string \<rightharpoonup> job) \<Rightarrow> string \<Rightarrow> string + job" where
  "job_status JOBS jid = (case JOBS jid of None \<Rightarrow> Inl ''Job not found'' | Some j \<Rightarrow> Inr j)"

section \<open>Concrete stores used as examples\<close>

text \<open>
  A store with two areas.  The range read of \<open>Whitefield\<close> returns one reading; the
  range read of any other area raises.
\<close>

definition sample_reading :: dict where
  "sample_reading =
     [(''area'', PStr ''Whitefield''), (''TDS'', PNum 400), (''Ca'', PNum 80), (''Mg'', PNum 20),
      (''pH'', PNum (72 / 10)), (''turbidity'', PNum 1), (''chlorine'', PNum (3 / 10)),
      (''timestamp'', PStr ''2024-01-01 00:00:00'')]"

definition flaky_limit_to_first :: "string \<Rightarrow> nat \<Rightarrow> py_error + (string \<times> dict) list" where
  "flaky_limit_to_first area_key n =
     (if area_key = ''Whitefield'' then Inr (take n [(''79759898999999'', sample_reading)])
      else Inl UpstreamError)"

definition no_write :: "string \<Rightarrow> string \<Rightarrow> dict \<Rightarrow> py_error option" where
  "no_write area_key k data = None"

definition flaky_store :: firebase where
  "flaky_store =
     \<lparr>get_shallow = Inr [''Whitefield'', ''Jayanagar''],
      limit_to_first = flaky_limit_to_first,
      set_child = no_write\<rparr>"

text \<open>A store that holds the area key \<open>Sarjapur\<close> with no readings under it.\<close>

definition empty_limit_to_first :: "string \<Rightarrow> nat \<Rightarrow> py_error + (string \<times> dict) list" where
  "empty_limit_to_first area_key n = Inr []"

definition empty_area_store :: firebase where
  "empty_area_store =
     \<lparr>get_shallow = Inr [''Sarjapur''],
      limit_to_first = empty_limit_to_first,
      set_child = no_write\<rparr>"

text \<open>The area list the modeler falls back to, and example inputs of the forecast.\<close>

definition fallback_areas :: "string list" where
  "fallback_areas =
     [''MG Road'', ''Jayanagar'', ''HSR Layout'', ''Whitefield'', ''Sarjapur'',
      ''Electronics City'']"

definition single_record_fetch :: "nat \<Rightarrow> py_error + hrow list" where
  "single_record_fetch attempt = Inr [\<lparr>ts = 0, tds = Val 400\<rparr>]"

definition failing_fetch :: "nat \<Rightarrow> py_error + hrow list" where
  "failing_fetch attempt = Inl UpstreamError"

definition fixed_clock :: "nat \<Rightarrow> int" where
  "fixed_clock i = 0"

definition zero_jitter :: "nat \<Rightarrow> rat" where
  "zero_jitter i = 0"

definition no_tds_fetch :: "nat \<Rightarrow> py_error + hrow list" where
  "no_tds_fetch attempt = Inr [\<lparr>ts = 0, tds = Absent\<rparr>]"

text \<open>A job as \<open>start_treatment\<close> registers it, and a worker whose sleeps never raise.\<close>

definition queued_job :: job where
  "queued_job =
     \<lparr>job_id = ''job-1'', status = ''queued'', progress = 0, job_area = ''Whitefield'',
      device = ''RO'', volume_liters = 10, estimated_minutes = Some 60,
      result = None, error = None\<rparr>"

definition quiet_sleep :: "nat \<Rightarrow> rat \<Rightarrow> py_error option" where
  "quiet_sleep i d = None"

section \<open>Auxiliary notions for the proofs\<close>

text \<open>The value of a digit string read from the left, starting from \<open>a\<close>.\<close>

definition parse_from :: "int \<Rightarrow> string \<Rightarrow> int" where
  "parse_from a s = foldl (\<lambda>a c. 10 * a + digit_val c) a s"


text \<open>Every row of a frame holds a number in its \<open>TDS\<close> cell.\<close>

definition all_values :: "hrow list \<Rightarrow> bool" where
  "all_values df \<longleftrightarrow> (\<forall>r\<in>set df. \<exists>v. tds r = Val v)"

text \<open>The numbers of the \<open>TDS\<close> column.\<close>

definition tds_values :: "hrow list \<Rightarrow> rat list" where
  "tds_values df = map (\<lambda>r. case tds r of Val v \<Rightarrow> v | _ \<Rightarrow> 0) df"

text \<open>
  The states of a job that a status query can observe: the job as registered, then the
  state after each write of its worker.
\<close>

definition job_trace ::
  "job \<Rightarrow> (py_error + rat) \<Rightarrow> (nat \<Rightarrow> rat \<Rightarrow> py_error option) \<Rightarrow> rat \<Rightarrow> string \<Rightarrow> string
     \<Rightarrow> rat \<Rightarrow> rat option \<Rightarrow> rat \<Rightarrow> job list" where
  "job_trace j scale_env sleep_raises duration_minutes dev a volume current_hardness
       removal_efficiency =
     j # run_treatment_job j scale_env sleep_raises duration_minutes dev a volume
           current_hardness removal_efficiency"

text \<open>The duration of each of the worker's sleeps, for the scale \<open>sc\<close>.\<close>

definition step_sleep_of :: "rat \<Rightarrow> rat \<Rightarrow> rat" where
  "step_sleep_of duration_minutes sc = max (1 / 10) (duration_minutes / sc) / of_nat steps"

section \<open>Dictionary lemmas\<close>




section \<open>Rounding\<close>


lemma py_round2_hundredths: "\<exists>k::int. py_round2 x = of_int k / 100"
  by (simp add: py_round2_def Let_def)

section \<open>Derived hardness\<close>



section \<open>Hardness classes\<close>

text \<open>
  C3 (as the code has it).  \<open>classify_water_quality\<close> of app.py labels hardness with the
  closed-open thresholds 60, 120 and 180; \<open>WaterQualityModeler.classify_hardness\<close> labels
  it with the closed-open thresholds 75, 150 and 300.
\<close>

theorem hardness_thresholds:
  "(\<exists>c. classify_water_quality (PNum t) h = Inr c \<and>
      (h < 60 \<longrightarrow> dict_get c ''hardness_class'' = PStr ''Soft'') \<and>
      (60 \<le> h \<and> h < 120 \<longrightarrow> dict_get c ''hardness_class'' = PStr ''Moderately Hard'') \<and>
      (120 \<le> h \<and> h < 180 \<longrightarrow> dict_get c ''hardness_class'' = PStr ''Hard'') \<and>
      (180 \<le> h \<longrightarrow> dict_get c ''hardness_class'' = PStr ''Very Hard''))
   \<and> (h < 75 \<longrightarrow> classify_hardness h = ''Soft'')
   \<and> (75 \<le> h \<and> h < 150 \<longrightarrow> classify_hardness h = ''Moderately Hard'')
   \<and> (150 \<le> h \<and> h < 300 \<longrightarrow> classify_hardness h = ''Hard'')
   \<and> (300 \<le> h \<longrightarrow> classify_hardness h = ''Very Hard'')"
  by (simp add: classify_water_quality_def classify_hardness_def HARDNESS_STANDARDS_def
        dict_get_def Let_def)

theorem hardness_thresholds_witness:
  "(\<exists>c. classify_water_quality (PNum 400) 30 = Inr c \<and>
        dict_get c ''hardness_class'' = PStr ''Soft'')
   \<and> (\<exists>c. classify_water_quality (PNum 400) 60 = Inr c \<and>
        dict_get c ''hardness_class'' = PStr ''Moderately Hard'')
   \<and> (\<exists>c. classify_water_quality (PNum 400) 120 = Inr c \<and>
        dict_get c ''hardness_class'' = PStr ''Hard'')
   \<and> (\<exists>c. classify_water_quality (PNum 400) 180 = Inr c \<and>
        dict_get c ''hardness_class'' = PStr ''Very Hard'')
   \<and> classify_hardness 60 = ''Soft''
   \<and> classify_hardness 75 = ''Moderately Hard''
   \<and> classify_hardness 150 = ''Hard''
   \<and> classify_hardness 300 = ''Very Hard''"
  using hardness_thresholds [of 400 30] hardness_thresholds [of 400 60]
    hardness_thresholds [of 400 120] hardness_thresholds [of 400 180]
    hardness_thresholds [of 400 75] hardness_thresholds [of 400 150]
    hardness_thresholds [of 400 300]
  by simp

text \<open>
  C3 as stated fails in water_modeler.py: hardness exactly 60 is below the modeler's
  first threshold, so it is not labelled Moderately Hard.
\<close>

theorem classify_hardness_60_not_moderate:
  "classify_hardness 60 \<noteq> ''Moderately Hard''"
  by (simp add: classify_hardness_def HARDNESS_STANDARDS_def)

section \<open>Enrichment of records without Ca or Mg\<close>



section \<open>Storage keys\<close>

lemma lt10_cases:
  "(d::nat) < 10 \<Longrightarrow>
     d = 0 \<or> d = 1 \<or> d = 2 \<or> d = 3 \<or> d = 4 \<or> d = 5 \<or> d = 6 \<or> d = 7 \<or> d = 8 \<or> d = 9"
  by arith

lemma of_char_digit_char: "d < 10 \<Longrightarrow> (of_char (digit_char d) :: nat) = 48 + d"
  using lt10_cases [of d] by (auto simp: digit_char_def)


lemma digit_val_digit_char: "d < 10 \<Longrightarrow> digit_val (digit_char d) = int d"
  by (simp add: digit_val_def of_char_digit_char)




lemma parse_from_append: "parse_from a (s @ t) = parse_from (parse_from a s) t"
  by (simp add: parse_from_def)


lemma parse_from_nat_digits: "parse_from 0 (nat_digits n) = int n"
proof (induction n rule: nat_digits.induct)
  case (1 n)
  show ?case
  proof (cases "n < 10")
    case True
    then show ?thesis
      by (subst nat_digits.simps) (simp add: parse_from_def digit_val_digit_char)
  next
    case False
    then have ih: "parse_from 0 (nat_digits (n div 10)) = int (n div 10)"
      using "1" by simp
    have "parse_from 0 (nat_digits n)
        = parse_from (parse_from 0 (nat_digits (n div 10))) [digit_char (n mod 10)]"
      using False by (subst nat_digits.simps) (simp add: parse_from_append)
    also have "\<dots> = 10 * int (n div 10) + int (n mod 10)"
      by (simp add: parse_from_def digit_val_digit_char ih [unfolded parse_from_def])
    also have "\<dots> = int n"
      by (simp add: zdiv_int zmod_int)
    finally show ?thesis .
  qed
qed

lemma nat_digits_inj:
  assumes "nat_digits a = nat_digits b"
  shows "a = b"
proof -
  have "int a = parse_from 0 (nat_digits a)"
    by (simp only: parse_from_nat_digits)
  also have "\<dots> = parse_from 0 (nat_digits b)"
    by (simp only: assms)
  also have "\<dots> = int b"
    by (simp only: parse_from_nat_digits)
  finally show ?thesis by simp
qed























lemmas key_eval =
  reversed_key_def strftime_key_def zero_pad_def nat_digits.simps digit_char_def
  py_int_def is_digit_def digit_val_def py_str_def


section \<open>Ingestion and queries\<close>

text \<open>
  C7.  A request whose Authorization header differs from \<open>Bearer <secret>\<close> gets
  the 401 authentication error and nothing is written, whatever the store and the
  payload are; a request without the header and a request with another token are such
  requests.
\<close>

theorem ingest_auth_first:
  "(auth_header authorization \<noteq> expected_token secret \<longrightarrow>
      ingest_data secret authorization DB_REF json now
        = ((JError ''Authentication Failed. Invalid IOT_DEVICE_SECRET.'' None, 401), []))
   \<and> ingest_data secret None DB_REF json now
        = ((JError ''Authentication Failed. Invalid IOT_DEVICE_SECRET.'' None, 401), [])
   \<and> (token \<noteq> s \<longrightarrow>
      ingest_data (Some s) (Some (''Bearer '' @ token)) DB_REF json now
        = ((JError ''Authentication Failed. Invalid IOT_DEVICE_SECRET.'' None, 401), []))"
  by (simp add: ingest_data_def auth_header_def expected_token_def)

theorem ingest_auth_first_witness:
  "''wrong'' \<noteq> ''s3cret'' \<and>
   ingest_data (Some ''s3cret'') (Some (''Bearer '' @ ''wrong'')) (Some flaky_store)
     (Some sample_reading)
     \<lparr>year = 2024, month = 1, day = 1, hour = 0, minute = 0, second = 0\<rparr>
     = ((JError ''Authentication Failed. Invalid IOT_DEVICE_SECRET.'' None, 401), [])"
  using ingest_auth_first [of "Some (''Bearer '' @ ''wrong'')" "Some ''s3cret''"
      "Some flaky_store" "Some sample_reading"
      "\<lparr>year = 2024, month = 1, day = 1, hour = 0, minute = 0, second = 0\<rparr>" "''wrong''" "''s3cret''"]
  by simp

lemma ingest_accepts_valid_request:
  "ingest_data (Some ''s3cret'') (Some ''Bearer s3cret'') (Some flaky_store)
     (Some sample_reading)
     \<lparr>year = 2024, month = 1, day = 1, hour = 0, minute = 0, second = 0\<rparr>
     = ((JIngested ''Data ingested successfully'' ''2024-01-01 00:00:00'', 201),
        [(''Whitefield'', ''79759898999999'', sample_reading)])"
  by (simp add: ingest_data_def auth_header_def expected_token_def sample_reading_def
        required_fields_def ingest_write_def Let_def dict_item_def strftime_iso_def
        key_eval replace_char_def flaky_store_def no_write_def)

lemma length_enrich_all: "enrich_all xs = Inr ys \<Longrightarrow> length ys = length xs"
  by (induction xs arbitrary: ys) (auto split: sum.splits)

lemma length_sort_by_timestamp: "sort_by_timestamp xs = Inr ys \<Longrightarrow> length ys = length xs"
  by (auto simp: sort_by_timestamp_def split: option.splits if_splits)

text \<open>
  C8.  When the range read of a named area returns no records, \<open>get_history\<close>
  answers 404; and a 200 answer of \<open>get_history\<close> always carries a non-empty list of
  records whose length is the reported count.
\<close>

theorem get_history_empty_not_found:
  "(nm \<noteq> [] \<and> limit_to_first db (replace_char CHR '' '' CHR ''_'' nm) 100 = Inr [] \<longrightarrow>
      get_history (Some db) (Some nm) = (JMessage (''No data found for '' @ nm @ ''.''), 404))
   \<and> (snd (get_history DB_REF area_arg) = 200 \<longrightarrow>
        (\<exists>a rs. get_history DB_REF area_arg = (JHistory a (length rs) rs, 200) \<and> rs \<noteq> []))"
proof (intro conjI impI)
  assume "nm \<noteq> [] \<and> limit_to_first db (replace_char CHR '' '' CHR ''_'' nm) 100 = Inr []"
  then show "get_history (Some db) (Some nm)
      = (JMessage (''No data found for '' @ nm @ ''.''), 404)"
    by (simp add: get_history_def)
next
  assume ok: "snd (get_history DB_REF area_arg) = 200"
  then obtain name store data history processed where
    a: "area_arg = Some name" "DB_REF = Some store" "name \<noteq> []"
      "limit_to_first store (replace_char CHR '' '' CHR ''_'' name) 100 = Inr data" "data \<noteq> []"
      "sort_by_timestamp (map snd data) = Inr history"
      "enrich_all history = Inr processed"
    by (auto simp: get_history_def split: option.splits if_splits sum.splits)
  have "length processed = length data"
    using length_enrich_all [OF a(7)] length_sort_by_timestamp [OF a(6)] by simp
  then have "processed \<noteq> []" using a(5) by auto
  moreover have "get_history DB_REF area_arg = (JHistory name (length processed) processed, 200)"
    using a by (simp add: get_history_def)
  ultimately show "\<exists>a rs. get_history DB_REF area_arg = (JHistory a (length rs) rs, 200) \<and> rs \<noteq> []"
    by blast
qed

theorem get_history_empty_not_found_witness:
  "''Sarjapur'' \<noteq> [] \<and>
   limit_to_first empty_area_store (replace_char CHR '' '' CHR ''_'' ''Sarjapur'') 100 = Inr [] \<and>
   get_history (Some empty_area_store) (Some ''Sarjapur'')
     = (JMessage (''No data found for '' @ ''Sarjapur'' @ ''.''), 404) \<and>
   snd (get_history (Some flaky_store) (Some ''Whitefield'')) = 200 \<and>
   (\<exists>a rs. get_history (Some flaky_store) (Some ''Whitefield'') = (JHistory a (length rs) rs, 200)
       \<and> rs \<noteq> [])"
proof -
  have e: "limit_to_first empty_area_store (replace_char CHR '' '' CHR ''_'' ''Sarjapur'') 100
      = Inr []"
    by (simp add: empty_area_store_def empty_limit_to_first_def)
  have w: "snd (get_history (Some flaky_store) (Some ''Whitefield'')) = 200"
    by (simp add: get_history_def flaky_store_def flaky_limit_to_first_def replace_char_def
          sort_by_timestamp_def sample_reading_def dict_item_def enrich_def dict_get_def
          calculate_total_hardness_def classify_water_quality_def Let_def)
  show ?thesis
    using get_history_empty_not_found [of "''Sarjapur''" empty_area_store "Some flaky_store"
        "Some ''Whitefield''"] e w
    by simp
qed


lemma latest_loop_fails:
  assumes "k \<in> set keys"
    and "limit_to_first db k 1 = Inl e \<or>
         (\<exists>key r others. limit_to_first db k 1 = Inr ((key, r) # others) \<and> enrich r = Inl e)"
  shows "\<exists>e'. latest_loop db keys acc = Inl e'"
  using assms(1)
proof (induction keys arbitrary: acc)
  case Nil
  then show ?case by simp
next
  case (Cons a keys)
  show ?case
  proof (cases "a = k")
    case True
    then show ?thesis using assms(2) by auto
  next
    case False
    then have "k \<in> set keys" using Cons.prems by simp
    then have ih: "\<And>acc. \<exists>e'. latest_loop db keys acc = Inl e'"
      by (rule Cons.IH)
    show ?thesis
    proof (cases "limit_to_first db a 1")
      case (Inl x)
      then show ?thesis by simp
    next
      case (Inr rows)
      show ?thesis
      proof (cases rows)
        case Nil
        then show ?thesis using Inr ih by simp
      next
        case (Cons row others)
        obtain key r where row: "row = (key, r)" by (cases row)
        show ?thesis
          using Inr Cons row ih by (cases "enrich r") simp_all
      qed
    qed
  qed
qed

text \<open>
  C6 (as the code has it).  The loop of \<open>get_latest\<close> runs inside one exception
  handler: when the range read or the enrichment of any listed area raises, the whole
  answer is the 500 error.  An area whose range read is empty is passed over.
\<close>

theorem get_latest_area_error_is_fatal:
  "(get_shallow db = Inr keys \<and> k \<in> set keys \<and>
      (limit_to_first db k 1 = Inl e \<or>
       (\<exists>key r others. limit_to_first db k 1 = Inr ((key, r) # others) \<and> enrich r = Inl e))
    \<longrightarrow> (\<exists>e'. get_latest (Some db) = (JError ''Failed to fetch latest data'' (Some e'), 500)))
   \<and> (limit_to_first db k 1 = Inr [] \<longrightarrow>
        latest_loop db (k # rest) acc = latest_loop db rest acc)"
proof (intro conjI impI)
  assume a: "get_shallow db = Inr keys \<and> k \<in> set keys \<and>
      (limit_to_first db k 1 = Inl e \<or>
       (\<exists>key r others. limit_to_first db k 1 = Inr ((key, r) # others) \<and> enrich r = Inl e))"
  then obtain e' where "latest_loop db keys [] = Inl e'"
    using latest_loop_fails [of k keys db e "[]"] by blast
  moreover have "keys \<noteq> []" using a by auto
  ultimately show "\<exists>e'. get_latest (Some db)
      = (JError ''Failed to fetch latest data'' (Some e'), 500)"
    using a by (simp add: get_latest_def)
next
  assume "limit_to_first db k 1 = Inr []"
  then show "latest_loop db (k # rest) acc = latest_loop db rest acc"
    by simp
qed

theorem get_latest_area_error_is_fatal_witness:
  "get_shallow flaky_store = Inr [''Whitefield'', ''Jayanagar''] \<and>
   ''Jayanagar'' \<in> set [''Whitefield'', ''Jayanagar''] \<and>
   limit_to_first flaky_store ''Jayanagar'' 1 = Inl UpstreamError \<and>
   (\<exists>e'. get_latest (Some flaky_store)
      = (JError ''Failed to fetch latest data'' (Some e'), 500)) \<and>
   limit_to_first empty_area_store ''Sarjapur'' 1 = Inr [] \<and>
   latest_loop empty_area_store (''Sarjapur'' # []) [] = latest_loop empty_area_store [] []"
  using get_latest_area_error_is_fatal
      [of flaky_store "[''Whitefield'', ''Jayanagar'']" "''Jayanagar''" UpstreamError]
    get_latest_area_error_is_fatal [of empty_area_store "[]" "''Sarjapur''" UpstreamError "[]" "[]"]
  by (simp add: flaky_store_def flaky_limit_to_first_def empty_area_store_def
        empty_limit_to_first_def)

text \<open>
  C6 as stated fails: with one area read successfully and the read of the second one
  raising, \<open>get_latest\<close> answers 500 and returns no area at all.
\<close>

theorem get_latest_one_failing_area:
  "get_latest (Some flaky_store)
     = (JError ''Failed to fetch latest data'' (Some UpstreamError), 500)"
  by (simp add: get_latest_def flaky_store_def flaky_limit_to_first_def sample_reading_def
        enrich_def dict_get_def dict_item_def calculate_total_hardness_def
        classify_water_quality_def Let_def)

section \<open>Forecasts\<close>

lemma retry_loop_all_fail:
  assumes "\<forall>n\<in>{1, 2, 3}. fetch n = Inr [] \<or> (\<exists>e. fetch n = Inl e)"
  shows "fst (retry_loop fetch 1 max_retries) = None"
proof -
  have m: "max_retries = Suc (Suc (Suc 0))" by (simp add: max_retries_def)
  have d: "\<And>n. n \<in> {1, 2, 3} \<Longrightarrow> (case fetch n of Inl e \<Rightarrow> [] | Inr d \<Rightarrow> d) = []"
    using assms by (auto split: sum.splits)
  have d1: "(case fetch (Suc 0) of Inl e \<Rightarrow> [] | Inr d \<Rightarrow> d) = []" using d [of 1] by simp
  have d2: "(case fetch (Suc (Suc 0)) of Inl e \<Rightarrow> [] | Inr d \<Rightarrow> d) = []"
    using d [of 2] by (simp add: numeral_2_eq_2)
  have d3: "(case fetch (Suc (Suc (Suc 0))) of Inl e \<Rightarrow> [] | Inr d \<Rightarrow> d) = []"
    using d [of 3] by (simp add: numeral_3_eq_3)
  show ?thesis
    by (simp add: m d1 d2 d3 Let_def split: prod.splits)
qed

lemma retry_loop_first:
  assumes "fetch 1 = Inr data" and "data \<noteq> []"
  shows "fst (retry_loop fetch 1 max_retries) = Some data"
proof -
  have m: "max_retries = Suc (Suc (Suc 0))" by (simp add: max_retries_def)
  show ?thesis using assms by (simp add: m Let_def)
qed

lemma list_index_mem: "a \<in> set xs \<Longrightarrow> \<exists>i. list_index xs a = Inr i"
  by (induction xs) auto

lemma list_index_not_mem: "a \<notin> set xs \<Longrightarrow> list_index xs a = Inl ValueError"
  by (induction xs) auto

lemma cell_values_all:
  "(\<forall>c\<in>set cs. \<exists>v. c = Val v) \<Longrightarrow> \<exists>vs. cell_values cs = Some vs \<and> length vs = length cs"
  by (induction cs) auto

lemma all_values_sort: "all_values df \<Longrightarrow> all_values (sort_key ts df)"
  by (simp add: all_values_def)

lemma fit_succeeds:
  assumes "all_values df"
  shows "\<exists>model. LinearRegression_fit X (map tds df) = Inr model"
proof -
  have "\<forall>c\<in>set (map tds df). \<exists>v. c = Val v"
    using assms by (auto simp: all_values_def)
  then obtain vs where "cell_values (map tds df) = Some vs"
    using cell_values_all by blast
  then show ?thesis
    by (simp add: LinearRegression_fit_def Let_def)
qed

lemma last_value:
  assumes "all_values df" and "df \<noteq> []"
  shows "\<exists>v. cell_values [last (map tds df)] = Some [v]"
proof -
  have "last df \<in> set df" using assms(2) by simp
  then obtain v where "tds (last df) = Val v"
    using assms(1) by (auto simp: all_values_def)
  then show ?thesis using assms(2) by (simp add: last_map)
qed

lemma has_tds_column_values: "all_values df \<Longrightarrow> df \<noteq> [] \<Longrightarrow> has_tds_column df"
  by (cases df) (auto simp: has_tds_column_def all_values_def)

lemma predict_from_steps:
  assumes "all_values df" and "df \<noteq> []" and "1 \<le> future_steps"
  shows "\<exists>f. predict_from a future_steps df src = Inr f \<and> source f = Some src \<and>
           int (length (predictions f)) = future_steps \<and>
           model_used f = ''LinearRegression'' \<and> area f = a \<and>
           trend_message f \<noteq> Insufficient"
proof -
  let ?s = "sort_key ts df"
  have sv: "all_values ?s" using assms(1) by (rule all_values_sort)
  have sn: "?s \<noteq> []" using assms(2) by (metis length_sort list.size(3) length_0_conv)
  let ?ti = "map (\<lambda>r. (ts r - series_min (map ts ?s)) div one_day) ?s"
  obtain model where fit: "LinearRegression_fit ?ti (map tds ?s) = Inr model"
    using fit_succeeds [OF sv] by blast
  obtain v where cur: "cell_values [last (map tds ?s)] = Some [v]"
    using last_value [OF sv sn] by blast
  let ?fi = "[series_max ?ti + 1 .. series_max ?ti + future_steps]"
  have len: "int (length ?fi) = future_steps"
    using assms(3) by simp
  then have ne: "?fi \<noteq> []" using assms(3) by auto
  show ?thesis
    using assms(2) has_tds_column_values [OF assms(1,2)] fit cur ne len
    by (simp add: predict_from_def LinearRegression_predict_def Let_def)
qed

lemma predict_from_no_steps:
  assumes "all_values df" and "df \<noteq> []" and "future_steps \<le> 0"
  shows "predict_from a future_steps df src = Inl ValueError"
proof -
  let ?s = "sort_key ts df"
  have sv: "all_values ?s" using assms(1) by (rule all_values_sort)
  let ?ti = "map (\<lambda>r. (ts r - series_min (map ts ?s)) div one_day) ?s"
  obtain model where fit: "LinearRegression_fit ?ti (map tds ?s) = Inr model"
    using fit_succeeds [OF sv] by blast
  have "[series_max ?ti + 1 .. series_max ?ti + future_steps] = []"
    using assms(3) by simp
  then show ?thesis
    using assms(2) has_tds_column_values [OF assms(1,2)] fit
    by (simp add: predict_from_def LinearRegression_predict_def Let_def)
qed

lemma predict_from_no_column:
  assumes "\<forall>r\<in>set df. tds r = Absent"
  shows "predict_from a future_steps df src
     = Inr \<lparr>area = a, predictions = [], model_used = ''None'',
            trend_message = Insufficient, source = Some src\<rparr>"
proof -
  have "\<not> has_tds_column df"
    using assms by (simp add: has_tds_column_def list_ex_iff)
  then show ?thesis by (simp add: predict_from_def)
qed

lemma mock_all_values: "all_values (map (mock_row b limit clock jitter) [0..<limit])"
  by (simp add: all_values_def mock_row_def Let_def)


lemma cell_values_tds:
  "all_values df \<Longrightarrow> cell_values (map tds df) = Some (tds_values df)"
  by (induction df) (auto simp: all_values_def tds_values_def)

lemma sum_list_insort_key:
  fixes f :: "'a \<Rightarrow> rat"
  shows "sum_list (map f (insort_key k x xs)) = f x + sum_list (map f xs)"
  by (induction xs) (simp_all add: ac_simps)

lemma sum_list_sort_key:
  fixes f :: "'a \<Rightarrow> rat"
  shows "sum_list (map f (sort_key k xs)) = sum_list (map f xs)"
  by (induction xs) (simp_all add: sum_list_insort_key)

lemma map_constant: "(\<forall>x\<in>set xs. g x = c) \<Longrightarrow> map g xs = replicate (length xs) c"
  by (induction xs) simp_all

lemma mean_tds_values_sort: "mean (tds_values (sort_key ts df)) = mean (tds_values df)"
  by (simp add: mean_def tds_values_def sum_list_sort_key)

lemma foldl_min_props:
  "foldl min (a::int) xs \<in> insert a (set xs) \<and> foldl min a xs \<le> a \<and>
   (\<forall>x\<in>set xs. foldl min a xs \<le> x)"
proof (induction xs arbitrary: a)
  case Nil
  then show ?case by simp
next
  case (Cons x xs)
  have ih: "foldl min (min a x) xs \<in> insert (min a x) (set xs)"
    "foldl min (min a x) xs \<le> min a x"
    "\<forall>y\<in>set xs. foldl min (min a x) xs \<le> y"
    using Cons.IH [of "min a x"] by blast+
  have "min a x = a \<or> min a x = x" by (simp add: min_def)
  then have "foldl min (min a x) xs \<in> insert a (set (x # xs))"
    using ih(1) by auto
  moreover have "foldl min (min a x) xs \<le> a" "foldl min (min a x) xs \<le> x"
    using ih(2) by simp_all
  ultimately show ?case using ih(3) by simp
qed

lemma series_min_props:
  assumes "xs \<noteq> []"
  shows "series_min xs \<in> set xs" and "\<forall>x\<in>set xs. series_min xs \<le> x"
proof -
  obtain a ys where xs: "xs = a # ys" using assms by (cases xs) auto
  show "series_min xs \<in> set xs"
    using foldl_min_props [of a ys] by (simp add: series_min_def xs)
  show "\<forall>x\<in>set xs. series_min xs \<le> x"
    using foldl_min_props [of a ys] by (simp add: series_min_def xs)
qed

lemma same_day_offsets:
  assumes "df \<noteq> []" and "\<forall>r\<in>set df. \<forall>r'\<in>set df. ts r - ts r' < one_day"
  shows "map (\<lambda>r. (ts r - series_min (map ts (sort_key ts df))) div one_day) (sort_key ts df)
     = replicate (length df) 0"
proof -
  let ?s = "sort_key ts df"
  let ?t0 = "series_min (map ts ?s)"
  have ne: "map ts ?s \<noteq> []" using assms(1) by (cases df) simp_all
  have "?t0 \<in> set (map ts ?s)" using series_min_props(1) [OF ne] .
  then obtain r0 where r0: "r0 \<in> set df" "?t0 = ts r0" by auto
  have low: "\<forall>r\<in>set df. ?t0 \<le> ts r"
    using series_min_props(2) [OF ne] by simp
  have "\<forall>r\<in>set ?s. (ts r - ?t0) div one_day = 0"
  proof
    fix r assume "r \<in> set ?s"
    then have r: "r \<in> set df" by simp
    have "0 \<le> ts r - ?t0" using low r by simp
    moreover have "ts r - ?t0 < one_day" using assms(2) r r0 by simp
    ultimately show "(ts r - ?t0) div one_day = 0" by simp
  qed
  then have "map (\<lambda>r. (ts r - ?t0) div one_day) ?s = replicate (length ?s) 0"
    by (rule map_constant)
  then show ?thesis by simp
qed

lemma sum_list_replicate_zero: "sum_list (replicate n (0::rat)) = 0"
  by (induction n) simp_all

lemma fit_constant_regressor:
  assumes "cell_values y = Some ys"
  shows "LinearRegression_fit (replicate n 0) y = Inr (0, mean ys)"
proof -
  have xs: "map rat_of_int (replicate n 0) = replicate n 0" by simp
  have mx: "mean (replicate n 0) = 0"
    by (simp add: mean_def sum_list_replicate_zero)
  have sxx: "sum_list (map (\<lambda>x. (x - 0) * (x - 0)) (replicate n (0::rat))) = 0"
    by (simp add: sum_list_replicate_zero)
  show ?thesis
    unfolding LinearRegression_fit_def Let_def
    by (simp only: assms xs mx sxx) simp
qed


lemma predict_from_same_day:
  assumes "all_values df" and "df \<noteq> []" and "1 \<le> future_steps"
    and "\<forall>r\<in>set df. \<forall>r'\<in>set df. ts r - ts r' < one_day"
  shows "\<exists>f. predict_from a future_steps df src = Inr f \<and>
           (\<forall>p\<in>set (predictions f). snd p = mean (tds_values df))"
proof -
  let ?s = "sort_key ts df"
  have sv: "all_values ?s" using assms(1) by (rule all_values_sort)
  have sn: "?s \<noteq> []" using assms(2) by (metis length_sort list.size(3) length_0_conv)
  let ?ti = "map (\<lambda>r. (ts r - series_min (map ts ?s)) div one_day) ?s"
  have ti: "?ti = replicate (length df) 0"
    using assms(2,4) by (rule same_day_offsets)
  let ?m = "mean (tds_values df)"
  have fit: "LinearRegression_fit ?ti (map tds ?s) = Inr (0, ?m)"
    using fit_constant_regressor [OF cell_values_tds [OF sv], of "length df"]
    by (simp only: ti mean_tds_values_sort)
  obtain v where cur: "cell_values [last (map tds ?s)] = Some [v]"
    using last_value [OF sv sn] by blast
  let ?fi = "[series_max ?ti + 1 .. series_max ?ti + future_steps]"
  let ?P = "map (\<lambda>x. ?m + 0 * rat_of_int x) ?fi"
  have ne: "?fi \<noteq> []" using assms(3) by auto
  have lp: "LinearRegression_predict (0, ?m) ?fi = Inr ?P"
    using ne by (simp add: LinearRegression_predict_def)
  have P: "\<forall>v\<in>set ?P. v = ?m"
    by simp
  let ?preds = "map (\<lambda>(i, v). (series_max (map ts ?s) + (int i + 1) * one_day, v))
                  (zip [0..<length ?P] ?P)"
  have "\<forall>p\<in>set ?preds. snd p \<in> set ?P"
    by (auto dest: set_zip_rightD)
  then have all: "\<forall>p\<in>set ?preds. snd p = ?m"
    using P by blast
  have "\<exists>msg. predict_from a future_steps df src
      = Inr \<lparr>area = a, predictions = ?preds, model_used = ''LinearRegression'',
             trend_message = msg, source = Some src\<rparr>"
    using assms(2) has_tds_column_values [OF assms(1,2)] fit cur ne lp
    by (simp add: predict_from_def Let_def)
  then show ?thesis
    using all by auto
qed

text \<open>
  C4 (as the code has it).  \<open>predict_area_trend\<close> has no check on the number of
  distinct day offsets.  For a fetched history whose samples all lie less than a day
  apart and all carry a TDS value, it fits the regression and returns \<open>future_steps\<close>
  predictions, each equal to the mean TDS of the history.  The insufficient-data result
  with no predictions is returned when no record of the history has a \<open>TDS\<close> key.
\<close>

theorem degenerate_history_is_fitted:
  "(fetch 1 = Inr df \<and> df \<noteq> [] \<and> all_values df \<and> 1 \<le> future_steps \<and>
      (\<forall>r\<in>set df. \<forall>r'\<in>set df. ts r - ts r' < one_day) \<longrightarrow>
      (\<exists>f. predict_area_trend areas nm future_steps fetch clock jitter = Inr f \<and>
           source f = Some ''real'' \<and> model_used f = ''LinearRegression'' \<and>
           trend_message f \<noteq> Insufficient \<and>
           int (length (predictions f)) = future_steps \<and>
           (\<forall>p\<in>set (predictions f). snd p = mean (tds_values df))))
   \<and> (fetch 1 = Inr df \<and> df \<noteq> [] \<and> (\<forall>r\<in>set df. tds r = Absent) \<longrightarrow>
      predict_area_trend areas nm future_steps fetch clock jitter
        = Inr \<lparr>area = nm, predictions = [], model_used = ''None'',
               trend_message = Insufficient, source = Some ''real''\<rparr>)"
proof (intro conjI impI)
  assume a: "fetch 1 = Inr df \<and> df \<noteq> [] \<and> all_values df \<and> 1 \<le> future_steps \<and>
      (\<forall>r\<in>set df. \<forall>r'\<in>set df. ts r - ts r' < one_day)"
  then have h: "get_history_df areas nm 30 fetch clock jitter = Inr (df, ''real'')"
    using retry_loop_first [of fetch df] by (simp add: get_history_df_def)
  obtain f where f: "predict_from nm future_steps df ''real'' = Inr f"
    "source f = Some ''real''" "int (length (predictions f)) = future_steps"
    "model_used f = ''LinearRegression''" "trend_message f \<noteq> Insufficient"
    using predict_from_steps [of df future_steps nm "''real''"] a by blast
  obtain f' where f': "predict_from nm future_steps df ''real'' = Inr f'"
    "\<forall>p\<in>set (predictions f'). snd p = mean (tds_values df)"
    using predict_from_same_day [of df future_steps nm "''real''"] a by blast
  have "f' = f" using f(1) f'(1) by simp
  then show "\<exists>f. predict_area_trend areas nm future_steps fetch clock jitter = Inr f \<and>
           source f = Some ''real'' \<and> model_used f = ''LinearRegression'' \<and>
           trend_message f \<noteq> Insufficient \<and>
           int (length (predictions f)) = future_steps \<and>
           (\<forall>p\<in>set (predictions f). snd p = mean (tds_values df))"
    using f f'(2) h by (simp add: predict_area_trend_def)
next
  assume a: "fetch 1 = Inr df \<and> df \<noteq> [] \<and> (\<forall>r\<in>set df. tds r = Absent)"
  then have h: "get_history_df areas nm 30 fetch clock jitter = Inr (df, ''real'')"
    using retry_loop_first [of fetch df] by (simp add: get_history_df_def)
  show "predict_area_trend areas nm future_steps fetch clock jitter
        = Inr \<lparr>area = nm, predictions = [], model_used = ''None'',
               trend_message = Insufficient, source = Some ''real''\<rparr>"
    using a h predict_from_no_column [of df nm future_steps "''real''"]
    by (simp add: predict_area_trend_def)
qed

theorem degenerate_history_is_fitted_witness:
  "single_record_fetch 1 = Inr [\<lparr>ts = 0, tds = Val 400\<rparr>] \<and>
   all_values [\<lparr>ts = 0, tds = Val 400\<rparr>] \<and>
   (\<exists>f. predict_area_trend fallback_areas ''MG Road'' 7 single_record_fetch fixed_clock
           zero_jitter = Inr f \<and>
        source f = Some ''real'' \<and> model_used f = ''LinearRegression'' \<and>
        trend_message f \<noteq> Insufficient \<and>
        int (length (predictions f)) = 7 \<and>
        (\<forall>p\<in>set (predictions f). snd p = mean (tds_values [\<lparr>ts = 0, tds = Val 400\<rparr>]))) \<and>
   no_tds_fetch 1 = Inr [\<lparr>ts = 0, tds = Absent\<rparr>] \<and>
   predict_area_trend fallback_areas ''MG Road'' 7 no_tds_fetch fixed_clock zero_jitter
     = Inr \<lparr>area = ''MG Road'', predictions = [], model_used = ''None'',
            trend_message = Insufficient, source = Some ''real''\<rparr>"
  using degenerate_history_is_fitted
      [of single_record_fetch "[\<lparr>ts = 0, tds = Val 400\<rparr>]" 7 fallback_areas "''MG Road''"
          fixed_clock zero_jitter]
    degenerate_history_is_fitted
      [of no_tds_fetch "[\<lparr>ts = 0, tds = Absent\<rparr>]" 7 fallback_areas "''MG Road''"
          fixed_clock zero_jitter]
  by (simp add: single_record_fetch_def no_tds_fetch_def all_values_def one_day_def)

text \<open>
  C4 as stated fails: for a history of a single record with TDS 400 the forecast is
  seven predictions of 400 from the fitted model, not the insufficient-data result.
\<close>

theorem single_record_is_fitted:
  "predict_area_trend fallback_areas ''MG Road'' 7 single_record_fetch fixed_clock zero_jitter
     = Inr \<lparr>area = ''MG Road'',
            predictions = [(86400000000, 400), (172800000000, 400), (259200000000, 400),
                           (345600000000, 400), (432000000000, 400), (518400000000, 400),
                           (604800000000, 400)],
            model_used = ''LinearRegression'', trend_message = Stable 0,
            source = Some ''real''\<rparr>"
  by (simp add: predict_area_trend_def get_history_df_def max_retries_def eval_nat_numeral
        single_record_fetch_def predict_from_def has_tds_column_def series_min_def
        series_max_def LinearRegression_fit_def mean_def LinearRegression_predict_def
        Let_def one_day_def upto.simps)

lemma backoff_delays: "snd (retry_loop failing_fetch 1 max_retries) = [1 / 2, 1]"
proof -
  have m: "max_retries = Suc (Suc (Suc 0))" by (simp add: max_retries_def)
  have "snd (retry_loop failing_fetch (Suc 0) (Suc (Suc (Suc 0)))) = [1 / 2, 1]"
    by (simp add: failing_fetch_def Let_def max_retries_def base_delay_def split: prod.splits)
  then show ?thesis by (simp add: m)
qed

text \<open>
  C5 (as the code has it).  For an area of the known-areas list and at least one
  future step, when each of the three attempts fails or returns no records,
  \<open>predict_area_trend\<close> returns a forecast whose source is \<open>mock\<close> and which has
  exactly \<open>future_steps\<close> predictions.
\<close>

theorem predict_after_failures:
  assumes "nm \<in> set areas" and "1 \<le> future_steps"
    and "\<forall>n\<in>{1, 2, 3}. fetch n = Inr [] \<or> (\<exists>e. fetch n = Inl e)"
  shows "\<exists>f. predict_area_trend areas nm future_steps fetch clock jitter = Inr f \<and>
           source f = Some ''mock'' \<and> int (length (predictions f)) = future_steps"
proof -
  obtain idx where idx: "list_index areas nm = Inr idx"
    using list_index_mem [OF assms(1)] by blast
  let ?df = "map (mock_row (350 + (idx * 50) mod 200) 30 clock jitter) [0..<30]"
  have h: "get_history_df areas nm 30 fetch clock jitter = Inr (?df, ''mock'')"
    using retry_loop_all_fail [OF assms(3)] idx by (simp add: get_history_df_def Let_def)
  have ne: "?df \<noteq> []" by simp
  obtain f where "predict_from nm future_steps ?df ''mock'' = Inr f"
    "source f = Some ''mock''" "int (length (predictions f)) = future_steps"
    using predict_from_steps [OF mock_all_values ne assms(2), of nm "''mock''"] by blast
  then show ?thesis
    using h by (simp add: predict_area_trend_def)
qed


theorem predict_after_failures_witness:
  "''MG Road'' \<in> set fallback_areas \<and>
   failing_fetch 1 = Inl UpstreamError \<and>
   failing_fetch 2 = Inl UpstreamError \<and>
   failing_fetch 3 = Inl UpstreamError \<and>
   (\<exists>f. predict_area_trend fallback_areas ''MG Road'' 7 failing_fetch fixed_clock zero_jitter
          = Inr f \<and>
        source f = Some ''mock'' \<and> int (length (predictions f)) = 7)"
  using predict_after_failures
      [of "''MG Road''" fallback_areas 7 failing_fetch fixed_clock zero_jitter]
  by (simp add: fallback_areas_def failing_fetch_def)

text \<open>
  C5 as stated fails for an area outside the known-areas list, where the fallback
  raises \<open>ValueError\<close>, and for zero future steps, where \<open>predict\<close> is called with
  no samples and raises \<open>ValueError\<close>.
\<close>

theorem predict_unknown_area_or_no_steps:
  "predict_area_trend fallback_areas ''Hebbal'' 7 failing_fetch fixed_clock zero_jitter
     = Inl ValueError \<and>
   predict_area_trend fallback_areas ''MG Road'' 0 failing_fetch fixed_clock zero_jitter
     = Inl ValueError"
proof
  have f: "fst (retry_loop failing_fetch 1 max_retries) = None"
    by (rule retry_loop_all_fail) (simp add: failing_fetch_def)
  have "list_index fallback_areas ''Hebbal'' = Inl ValueError"
    by (rule list_index_not_mem) (simp add: fallback_areas_def)
  then show "predict_area_trend fallback_areas ''Hebbal'' 7 failing_fetch fixed_clock zero_jitter
     = Inl ValueError"
    using f by (simp add: predict_area_trend_def get_history_df_def)
  have "list_index fallback_areas ''MG Road'' = Inr 0"
    by (simp add: fallback_areas_def)
  then have h: "get_history_df fallback_areas ''MG Road'' 30 failing_fetch fixed_clock zero_jitter
      = Inr (map (mock_row (350 + (0 * 50) mod 200) 30 fixed_clock zero_jitter) [0..<30], ''mock'')"
    using f by (simp add: get_history_df_def Let_def)
  have ne: "map (mock_row (350 + (0 * 50) mod 200) 30 fixed_clock zero_jitter) [0..<30] \<noteq> []"
    by simp
  show "predict_area_trend fallback_areas ''MG Road'' 0 failing_fetch fixed_clock zero_jitter
     = Inl ValueError"
    using predict_from_no_steps [OF mock_all_values ne, of 0 "''MG Road''" "''mock''"]
    by (simp only: predict_area_trend_def h sum.case prod.case)
qed

section \<open>Treatment jobs\<close>

lemma progress_value: "\<lfloor>(of_nat (i + 1) / of_nat steps) * (100 :: rat)\<rfloor> = 10 * (int i + 1)"
proof -
  have "(of_nat (i + 1) / of_nat steps) * (100 :: rat) = of_int (10 * (int i + 1))"
    by (simp add: steps_def)
  then show ?thesis by (simp only: floor_of_int)
qed

lemma of_nat_steps: "(of_nat steps :: rat) = 10"
  by (simp add: steps_def)

lemma progress_loop_Suc:
  "progress_loop s d i (Suc n) j =
     (case s i d of
        Some e \<Rightarrow> ([], Inl e)
      | None \<Rightarrow>
          (case progress_loop s d (Suc i) n (j\<lparr>progress := 10 * (int i + 1)\<rparr>) of
             (tr, r) \<Rightarrow> (j\<lparr>progress := 10 * (int i + 1)\<rparr> # tr, r)))"
  by (simp only: progress_loop.simps progress_value Let_def)

lemma ten_steps:
  "progress_loop s d i steps j
     = progress_loop s d i (Suc (Suc (Suc (Suc (Suc (Suc (Suc (Suc (Suc (Suc 0)))))))))) j"
  by (simp add: steps_def eval_nat_numeral)

lemma worker_run_example:
  "map (\<lambda>j. (status j, progress j))
     (run_treatment_job queued_job (Inr 1) quiet_sleep 60 ''RO'' ''Whitefield'' 10 (Some 200)
        (95 / 100))
   = [(''running'', 0), (''running'', 0), (''running'', 10), (''running'', 20),
      (''running'', 30), (''running'', 40), (''running'', 50), (''running'', 60),
      (''running'', 70), (''running'', 80), (''running'', 90), (''running'', 100),
      (''completed'', 100), (''completed'', 100), (''completed'', 100)]"
  by (simp add: run_treatment_job_def queued_job_def quiet_sleep_def Let_def
        ten_steps progress_loop_Suc del: progress_loop.simps(2))

lemma progress_loop_props:
  "progress_loop s d i n j = (tr, r) \<Longrightarrow> status j = ''running'' \<Longrightarrow>
   progress j \<le> 10 * int i \<Longrightarrow>
     map status tr = replicate (length tr) ''running'' \<and>
     sorted (progress j # map progress tr) \<and>
     (\<forall>x\<in>set tr. progress x \<le> 10 * (int i + int n)) \<and>
     (\<forall>j'. r = Inr j' \<longrightarrow>
        j' = last (j # tr) \<and> length tr = n \<and> (0 < n \<longrightarrow> progress j' = 10 * (int i + int n))) \<and>
     (\<forall>e. r = Inl e \<longrightarrow>
        (\<exists>k. i \<le> k \<and> k < i + n \<and> s k d = Some e \<and>
             (\<forall>k'. i \<le> k' \<and> k' < k \<longrightarrow> s k' d = None))) \<and>
     ((\<forall>k. i \<le> k \<and> k < i + n \<longrightarrow> s k d = None) \<longrightarrow> (\<exists>j'. r = Inr j'))"
proof (induction n arbitrary: i j tr r)
  case 0
  then show ?case by auto
next
  case (Suc n)
  let ?j = "j\<lparr>progress := 10 * (int i + 1)\<rparr>"
  note run = Suc.prems(1) and st = Suc.prems(2) and pr = Suc.prems(3)
  show ?case
  proof (cases "s i d")
    case (Some e)
    then have "tr = []" "r = Inl e"
      using run by (simp_all add: progress_loop_Suc del: progress_loop.simps(2))
    then show ?thesis using Some by auto
  next
    case None
    obtain tr' r' where rec: "progress_loop s d (Suc i) n ?j = (tr', r')"
      by (cases "progress_loop s d (Suc i) n ?j")
    have tr: "tr = ?j # tr'" and r: "r = r'"
      using run None rec by (simp_all add: progress_loop_Suc del: progress_loop.simps(2))
    have st': "status ?j = ''running''" using st by simp
    have pr': "progress ?j \<le> 10 * int (Suc i)" by simp
    note ih = Suc.IH [OF rec st' pr']
    have a: "map status tr = replicate (length tr) ''running''"
      using ih st' by (simp add: tr)
    have b: "sorted (progress j # map progress tr)"
      using ih pr by (auto simp: tr)
    have c: "\<forall>x\<in>set tr. progress x \<le> 10 * (int i + int (Suc n))"
      using ih by (auto simp: tr)
    have d: "\<forall>j'. r = Inr j' \<longrightarrow>
        j' = last (j # tr) \<and> length tr = Suc n \<and> progress j' = 10 * (int i + int (Suc n))"
    proof (intro allI impI)
      fix j' assume "r = Inr j'"
      then have l: "j' = last (?j # tr')" and n: "length tr' = n"
        and p: "0 < n \<longrightarrow> progress j' = 10 * (int (Suc i) + int n)"
        using ih r by auto
      show "j' = last (j # tr) \<and> length tr = Suc n \<and> progress j' = 10 * (int i + int (Suc n))"
      proof (cases "n = 0")
        case True
        then have "tr' = []" using n by simp
        then show ?thesis using l True by (simp add: tr)
      next
        case False
        then show ?thesis using l p n by (simp add: tr)
      qed
    qed
    have e: "\<forall>e. r = Inl e \<longrightarrow>
           (\<exists>k. i \<le> k \<and> k < i + Suc n \<and> s k d = Some e \<and>
                (\<forall>k'. i \<le> k' \<and> k' < k \<longrightarrow> s k' d = None))"
    proof (intro allI impI)
      fix e assume "r = Inl e"
      then obtain k where k: "Suc i \<le> k" "k < Suc i + n" "s k d = Some e"
        "\<forall>k'. Suc i \<le> k' \<and> k' < k \<longrightarrow> s k' d = None"
        using ih r by blast
      have "\<forall>k'. i \<le> k' \<and> k' < k \<longrightarrow> s k' d = None"
      proof (intro allI impI)
        fix k' assume "i \<le> k' \<and> k' < k"
        then show "s k' d = None"
          using None k(4) by (cases "k' = i") auto
      qed
      then show "\<exists>k. i \<le> k \<and> k < i + Suc n \<and> s k d = Some e \<and>
                (\<forall>k'. i \<le> k' \<and> k' < k \<longrightarrow> s k' d = None)"
        using k by (intro exI [of _ k]) auto
    qed
    have f: "(\<forall>k. i \<le> k \<and> k < i + Suc n \<longrightarrow> s k d = None) \<longrightarrow> (\<exists>j'. r = Inr j')"
      using ih r by auto
    show ?thesis using a b c d e f by simp
  qed
qed


lemma sorted_le_last: "sorted xs \<Longrightarrow> x \<in> set xs \<Longrightarrow> x \<le> last xs"
  by (induction xs) auto

lemma run_cases:
  fixes j :: job
  defines "j1 \<equiv> j\<lparr>status := ''running''\<rparr>"
  defines "j2 \<equiv> j\<lparr>status := ''running'', progress := 0\<rparr>"
  shows
   "(\<exists>e. (scale_env = Inl e \<or> (scale_env = Inr 0 \<and> e = ZeroDivisionError)) \<and>
         job_trace j scale_env sl dur dev a vol ch eff
           = [j, j1, j2, j2\<lparr>status := ''failed''\<rparr>, j2\<lparr>status := ''failed'', error := Some e\<rparr>])
    \<or> (\<exists>sc tr e. scale_env = Inr sc \<and> sc \<noteq> 0 \<and>
         progress_loop sl (step_sleep_of dur sc) 0 steps j2 = (tr, Inl e) \<and>
         job_trace j scale_env sl dur dev a vol ch eff
           = [j, j1, j2] @ tr @
             [(last (j2 # tr))\<lparr>status := ''failed''\<rparr>,
              (last (j2 # tr))\<lparr>status := ''failed'', error := Some e\<rparr>])
    \<or> (\<exists>sc tr j3 res. scale_env = Inr sc \<and> sc \<noteq> 0 \<and>
         progress_loop sl (step_sleep_of dur sc) 0 steps j2 = (tr, Inr j3) \<and>
         job_trace j scale_env sl dur dev a vol ch eff
           = [j, j1, j2] @ tr @
             [j3\<lparr>status := ''completed''\<rparr>, j3\<lparr>status := ''completed'', progress := 100\<rparr>,
              j3\<lparr>status := ''completed'', progress := 100, result := Some res\<rparr>])"
proof (cases scale_env)
  case (Inl e)
  then show ?thesis
    by (simp add: job_trace_def run_treatment_job_def fail_job_def Let_def j1_def j2_def)
next
  case (Inr sc)
  show ?thesis
  proof (cases "sc = 0")
    case True
    then show ?thesis
      using Inr
      by (simp add: job_trace_def run_treatment_job_def fail_job_def Let_def j1_def j2_def)
  next
    case False
    obtain tr r where loop: "progress_loop sl (step_sleep_of dur sc) 0 steps j2 = (tr, r)"
      by (cases "progress_loop sl (step_sleep_of dur sc) 0 steps j2")
    show ?thesis
    proof (cases r)
      case (Inl e)
      then show ?thesis
        using Inr False loop
        by (simp add: job_trace_def run_treatment_job_def fail_job_def Let_def j1_def j2_def
              step_sleep_of_def)
    next
      case r: (Inr j3)
      then show ?thesis
        using Inr False loop
        by (auto simp: job_trace_def run_treatment_job_def fail_job_def Let_def j1_def j2_def
              step_sleep_of_def)
    qed
  qed
qed


lemma loop_from_start:
  fixes j :: job
  defines "j2 \<equiv> j\<lparr>status := ''running'', progress := 0\<rparr>"
  assumes "progress_loop sl d 0 steps j2 = (tr, r)"
  shows "map status tr = replicate (length tr) ''running''"
    and "sorted (0 # map progress tr)"
    and "\<forall>x\<in>set tr. progress x \<le> 100"
    and "r = Inr j3 \<Longrightarrow> j3 = last (j2 # tr) \<and> progress j3 = 100 \<and> status j3 = ''running''"
    and "r = Inl e \<Longrightarrow>
           \<exists>k<steps. sl k d = Some e \<and> (\<forall>k'<k. sl k' d = None)"
    and "\<forall>k<steps. sl k d = None \<Longrightarrow> \<exists>j'. r = Inr j'"
proof -
  have st: "status j2 = ''running''" and pr: "progress j2 \<le> 10 * int 0"
    by (simp_all add: j2_def)
  note p = progress_loop_props [OF assms(2) st pr]
  have s10: "int steps = 10" "0 < steps" by (simp_all add: steps_def)
  show a: "map status tr = replicate (length tr) ''running''" using p by blast
  show "sorted (0 # map progress tr)" using p by (simp add: j2_def)
  show "\<forall>x\<in>set tr. progress x \<le> 100" using p s10 by simp
  show "r = Inr j3 \<Longrightarrow> j3 = last (j2 # tr) \<and> progress j3 = 100 \<and> status j3 = ''running''"
  proof -
    assume r: "r = Inr j3"
    have p4: "\<forall>j'. r = Inr j' \<longrightarrow>
        j' = last (j2 # tr) \<and> length tr = steps \<and>
        (0 < steps \<longrightarrow> progress j' = 10 * (int 0 + int steps))"
      using p by blast
    have l: "j3 = last (j2 # tr)" using p4 r by blast
    have "progress j3 = 10 * (int 0 + int steps)" using p4 r s10(2) by blast
    then have pp: "progress j3 = 100" by (simp add: s10(1))
    have "\<forall>x\<in>set (j2 # tr). status x = ''running''"
    proof -
      have "set (map status tr) \<subseteq> {''running''}"
        by (subst a) (auto simp: set_replicate_conv_if)
      then show ?thesis using st by auto
    qed
    then have "status (last (j2 # tr)) = ''running''"
      using last_in_set [of "j2 # tr"] by blast
    then show ?thesis using l pp by simp
  qed
  show "r = Inl e \<Longrightarrow> \<exists>k<steps. sl k d = Some e \<and> (\<forall>k'<k. sl k' d = None)"
    using p by auto
  show "\<forall>k<steps. sl k d = None \<Longrightarrow> \<exists>j'. r = Inr j'"
    using p by auto
qed


lemma progress_loop_completes:
  "progress_loop s d i n j = (tr, Inr j') \<Longrightarrow> i \<le> k \<Longrightarrow> k < i + n \<Longrightarrow> s k d = None"
proof (induction n arbitrary: i j tr)
  case 0
  then show ?case by simp
next
  case (Suc n)
  let ?j = "j\<lparr>progress := 10 * (int i + 1)\<rparr>"
  have none: "s i d = None"
    using Suc.prems(1) by (cases "s i d") (simp_all add: progress_loop_Suc del: progress_loop.simps(2))
  obtain tr' r' where rec: "progress_loop s d (Suc i) n ?j = (tr', r')"
    by (cases "progress_loop s d (Suc i) n ?j")
  have "r' = Inr j'"
    using Suc.prems(1) none rec by (simp add: progress_loop_Suc del: progress_loop.simps(2))
  then have rec': "progress_loop s d (Suc i) n ?j = (tr', Inr j')"
    using rec by simp
  show ?case
  proof (cases "k = i")
    case True
    then show ?thesis using none by simp
  next
    case False
    then have "Suc i \<le> k" "k < Suc i + n" using Suc.prems(2,3) by simp_all
    then show ?thesis using Suc.IH [OF rec'] by blast
  qed
qed

lemma job_trace_shape:
  fixes j :: job and scale_env :: "py_error + rat" and sl :: "nat \<Rightarrow> rat \<Rightarrow> py_error option"
    and dur :: rat and dev :: string and a :: string and vol :: rat and ch :: "rat option"
    and eff :: rat
  defines "j1 \<equiv> j\<lparr>status := ''running''\<rparr>"
  defines "j2 \<equiv> j\<lparr>status := ''running'', progress := 0\<rparr>"
  defines "T \<equiv> job_trace j scale_env sl dur dev a vol ch eff"
  shows "\<exists>body. map status body = replicate (length body) ''running'' \<and>
           sorted (0 # map progress body) \<and> (\<forall>x\<in>set body. progress x \<le> 100) \<and>
           ((\<exists>e. T = [j, j1, j2] @ body @
                    [(last (j2 # body))\<lparr>status := ''failed''\<rparr>,
                     (last (j2 # body))\<lparr>status := ''failed'', error := Some e\<rparr>]) \<or>
            (\<exists>j3 res. progress j3 = 100 \<and>
                T = [j, j1, j2] @ body @
                    [j3\<lparr>status := ''completed''\<rparr>,
                     j3\<lparr>status := ''completed'', progress := 100\<rparr>,
                     j3\<lparr>status := ''completed'', progress := 100, result := Some res\<rparr>]))"
proof -
  note rc = run_cases [of scale_env j sl dur dev a vol ch eff, folded j1_def j2_def T_def]
  from rc consider
    (early) e where "T = [j, j1, j2, j2\<lparr>status := ''failed''\<rparr>,
                          j2\<lparr>status := ''failed'', error := Some e\<rparr>]"
  | (sleep) sc tr e where "progress_loop sl (step_sleep_of dur sc) 0 steps j2 = (tr, Inl e)"
      "T = [j, j1, j2] @ tr @
             [(last (j2 # tr))\<lparr>status := ''failed''\<rparr>,
              (last (j2 # tr))\<lparr>status := ''failed'', error := Some e\<rparr>]"
  | (finished) sc tr j3 res where "progress_loop sl (step_sleep_of dur sc) 0 steps j2 = (tr, Inr j3)"
      "T = [j, j1, j2] @ tr @
             [j3\<lparr>status := ''completed''\<rparr>, j3\<lparr>status := ''completed'', progress := 100\<rparr>,
              j3\<lparr>status := ''completed'', progress := 100, result := Some res\<rparr>]"
    by blast
  then show ?thesis
  proof cases
    case early
    then show ?thesis
      by (intro exI [of _ "[]"]) auto
  next
    case sleep
    note l = loop_from_start [OF sleep(1) [unfolded j2_def]]
    show ?thesis
      using l(1,2,3) sleep(2) by (intro exI [of _ tr]) auto
  next
    case finished
    note l = loop_from_start [OF finished(1) [unfolded j2_def]]
    have "progress j3 = 100" using l(4) [of j3] by blast
    then show ?thesis
      using l(1,2,3) finished(2) by (intro exI [of _ tr]) auto
  qed
qed


lemma running_body:
  assumes "map status body = replicate (length body) ''running''"
  shows "\<forall>x\<in>set body. status x = ''running''"
proof -
  have "set (map status body) \<subseteq> {''running''}"
    by (subst assms) (auto simp: set_replicate_conv_if)
  then show ?thesis by auto
qed

lemma last_progress:
  "last (0 # map progress body) = progress (last (j\<lparr>status := st, progress := 0\<rparr> # body))"
  by (cases "body = []") (simp_all add: last_map)

lemma failed_trace_status:
  assumes "status j = ''queued''"
    and "map status body = replicate (length body) ''running''"
    and "T = [j, j1, j2] @ body @ [b\<lparr>status := ''failed''\<rparr>, b\<lparr>status := ''failed'', error := Some e\<rparr>]"
    and "status j1 = ''running''" and "status j2 = ''running''"
  shows "map status T
     = ''queued'' # replicate (Suc (Suc (length body))) ''running'' @ replicate (Suc (Suc 0)) ''failed''"
  by (simp add: assms)

lemma completed_trace_status:
  assumes "status j = ''queued''"
    and "map status body = replicate (length body) ''running''"
    and "T = [j, j1, j2] @ body @
           [j3\<lparr>status := ''completed''\<rparr>, j3\<lparr>status := ''completed'', progress := 100\<rparr>,
            j3\<lparr>status := ''completed'', progress := 100, result := Some res\<rparr>]"
    and "status j1 = ''running''" and "status j2 = ''running''"
  shows "map status T
     = ''queued'' # replicate (Suc (Suc (length body))) ''running'' @
         replicate (Suc (Suc (Suc 0))) ''completed''"
  by (simp add: assms)

lemma failed_trace_sorted:
  assumes "progress j = 0" and "progress j1 = 0" and "progress j2 = 0"
    and "sorted (0 # map progress body)"
    and "b = last (j2 # body)"
    and "T = [j, j1, j2] @ body @ [b\<lparr>status := ''failed''\<rparr>, b\<lparr>status := ''failed'', error := Some e\<rparr>]"
  shows "sorted (map progress T)"
proof -
  have lp: "last (0 # map progress body) = progress b"
    using assms(3,5) by (cases "body = []") (simp_all add: last_map)
  have le: "\<forall>x\<in>set (0 # map progress body). x \<le> progress b"
  proof
    fix x assume "x \<in> set (0 # map progress body)"
    then have "x \<le> last (0 # map progress body)"
      by (rule sorted_le_last [OF assms(4)])
    then show "x \<le> progress b" by (simp only: lp)
  qed
  have "map progress T = 0 # 0 # (0 # map progress body) @ [progress b, progress b]"
    by (simp add: assms(1,2,3,6))
  moreover have "sorted (0 # 0 # (0 # map progress body) @ [progress b, progress b])"
    using assms(4) le by (simp add: sorted_append)
  ultimately show ?thesis by simp
qed

lemma completed_trace_sorted:
  assumes "progress j = 0" and "progress j1 = 0" and "progress j2 = 0"
    and "sorted (0 # map progress body)" and "\<forall>x\<in>set body. progress x \<le> 100"
    and "progress j3 = 100"
    and "T = [j, j1, j2] @ body @
           [j3\<lparr>status := ''completed''\<rparr>, j3\<lparr>status := ''completed'', progress := 100\<rparr>,
            j3\<lparr>status := ''completed'', progress := 100, result := Some res\<rparr>]"
  shows "sorted (map progress T)"
proof -
  have "map progress T = 0 # 0 # (0 # map progress body) @ [100, 100, 100]"
    by (simp add: assms(1,2,3,6,7))
  moreover have "sorted (0 # 0 # (0 # map progress body) @ [100, 100, 100 :: int])"
    using assms(4,5) by (simp add: sorted_append)
  ultimately show ?thesis by simp
qed


lemma failed_trace_completed:
  assumes "status j = ''queued''" and "status j1 = ''running''" and "status j2 = ''running''"
    and "\<forall>x\<in>set body. status x = ''running''"
    and "T = [j, j1, j2] @ body @ [b\<lparr>status := ''failed''\<rparr>, b\<lparr>status := ''failed'', error := Some e\<rparr>]"
  shows "\<forall>x\<in>set T. status x = ''completed'' \<longrightarrow> progress x = 100"
  using assms(1-4) by (auto simp: assms(5))

lemma completed_trace_completed:
  assumes "status j = ''queued''" and "status j1 = ''running''" and "status j2 = ''running''"
    and "\<forall>x\<in>set body. status x = ''running''" and "progress j3 = 100"
    and "T = [j, j1, j2] @ body @
           [j3\<lparr>status := ''completed''\<rparr>, j3\<lparr>status := ''completed'', progress := 100\<rparr>,
            j3\<lparr>status := ''completed'', progress := 100, result := Some res\<rparr>]"
  shows "\<forall>x\<in>set T. status x = ''completed'' \<longrightarrow> progress x = 100"
  using assms(1-5) by (auto simp: assms(6))

lemma job_trace_props:
  fixes j :: job and scale_env :: "py_error + rat" and sl :: "nat \<Rightarrow> rat \<Rightarrow> py_error option"
    and dur :: rat and dev :: string and a :: string and vol :: rat and ch :: "rat option"
    and eff :: rat
  defines "T \<equiv> job_trace j scale_env sl dur dev a vol ch eff"
  assumes q: "status j = ''queued''" and p0: "progress j = 0"
  shows "\<exists>n m final. (final = ''completed'' \<or> final = ''failed'') \<and>
           map status T = ''queued'' # replicate (Suc n) ''running'' @ replicate (Suc m) final"
    and "sorted (map progress T)"
    and "\<forall>x\<in>set T. status x = ''completed'' \<longrightarrow> progress x = 100"
proof -
  let ?j1 = "j\<lparr>status := ''running''\<rparr>"
  let ?j2 = "j\<lparr>status := ''running'', progress := 0\<rparr>"
  have s1: "status ?j1 = ''running''" and s2: "status ?j2 = ''running''" by simp_all
  have p1: "progress ?j1 = 0" and p2: "progress ?j2 = 0" using p0 by simp_all
  obtain body where b: "map status body = replicate (length body) ''running''"
    "sorted (0 # map progress body)" "\<forall>x\<in>set body. progress x \<le> 100"
    and t: "(\<exists>e. T = [j, ?j1, ?j2] @ body @
                    [(last (?j2 # body))\<lparr>status := ''failed''\<rparr>,
                     (last (?j2 # body))\<lparr>status := ''failed'', error := Some e\<rparr>]) \<or>
            (\<exists>j3 res. progress j3 = 100 \<and>
                T = [j, ?j1, ?j2] @ body @
                    [j3\<lparr>status := ''completed''\<rparr>,
                     j3\<lparr>status := ''completed'', progress := 100\<rparr>,
                     j3\<lparr>status := ''completed'', progress := 100, result := Some res\<rparr>])"
    using job_trace_shape [of j scale_env sl dur dev a vol ch eff, folded T_def] by blast
  have rb: "\<forall>x\<in>set body. status x = ''running''" using b(1) by (rule running_body)
  from t consider
    (failed) e where "T = [j, ?j1, ?j2] @ body @
                    [(last (?j2 # body))\<lparr>status := ''failed''\<rparr>,
                     (last (?j2 # body))\<lparr>status := ''failed'', error := Some e\<rparr>]"
  | (completed) j3 res where "progress j3 = 100"
      "T = [j, ?j1, ?j2] @ body @
                    [j3\<lparr>status := ''completed''\<rparr>,
                     j3\<lparr>status := ''completed'', progress := 100\<rparr>,
                     j3\<lparr>status := ''completed'', progress := 100, result := Some res\<rparr>]"
    by blast
  then have "(\<exists>n m final. (final = ''completed'' \<or> final = ''failed'') \<and>
           map status T = ''queued'' # replicate (Suc n) ''running'' @ replicate (Suc m) final)
     \<and> sorted (map progress T)
     \<and> (\<forall>x\<in>set T. status x = ''completed'' \<longrightarrow> progress x = 100)"
  proof cases
    case failed
    have "map status T
      = ''queued'' # replicate (Suc (Suc (length body))) ''running'' @ replicate (Suc (Suc 0)) ''failed''"
      by (rule failed_trace_status [OF q b(1) failed s1 s2])
    then have "\<exists>n m final. (final = ''completed'' \<or> final = ''failed'') \<and>
           map status T = ''queued'' # replicate (Suc n) ''running'' @ replicate (Suc m) final"
      by (intro exI [of _ "Suc (length body)"] exI [of _ "Suc 0"] exI [of _ "''failed''"])
        (simp only: simp_thms)
    moreover have "sorted (map progress T)"
      by (rule failed_trace_sorted [OF p0 p1 p2 b(2) refl failed])
    moreover have "\<forall>x\<in>set T. status x = ''completed'' \<longrightarrow> progress x = 100"
      by (rule failed_trace_completed [OF q s1 s2 rb failed])
    ultimately show ?thesis by (intro conjI)
  next
    case completed
    have "map status T
      = ''queued'' # replicate (Suc (Suc (length body))) ''running'' @
          replicate (Suc (Suc (Suc 0))) ''completed''"
      by (rule completed_trace_status [OF q b(1) completed(2) s1 s2])
    then have "\<exists>n m final. (final = ''completed'' \<or> final = ''failed'') \<and>
           map status T = ''queued'' # replicate (Suc n) ''running'' @ replicate (Suc m) final"
      by (intro exI [of _ "Suc (length body)"] exI [of _ "Suc (Suc 0)"] exI [of _ "''completed''"])
        (simp only: simp_thms)
    moreover have "sorted (map progress T)"
      by (rule completed_trace_sorted [OF p0 p1 p2 b(2,3) completed])
    moreover have "\<forall>x\<in>set T. status x = ''completed'' \<longrightarrow> progress x = 100"
      by (rule completed_trace_completed [OF q s1 s2 rb completed])
    ultimately show ?thesis by (intro conjI)
  qed
  note main = this
  show "\<exists>n m final. (final = ''completed'' \<or> final = ''failed'') \<and>
           map status T = ''queued'' # replicate (Suc n) ''running'' @ replicate (Suc m) final"
    by (rule conjunct1 [OF main])
  show "sorted (map progress T)"
    by (rule conjunct1 [OF conjunct2 [OF main]])
  show "\<forall>x\<in>set T. status x = ''completed'' \<longrightarrow> progress x = 100"
    by (rule conjunct2 [OF conjunct2 [OF main]])
qed


lemma job_outcome:
  fixes j :: job and scale_env :: "py_error + rat" and sl :: "nat \<Rightarrow> rat \<Rightarrow> py_error option"
    and dur :: rat and dev :: string and a :: string and vol :: rat and ch :: "rat option"
    and eff :: rat
  defines "T \<equiv> job_trace j scale_env sl dur dev a vol ch eff"
  shows "scale_env = Inl e \<Longrightarrow> status (last T) = ''failed'' \<and> error (last T) = Some e"
    and "scale_env = Inr 0 \<Longrightarrow>
           status (last T) = ''failed'' \<and> error (last T) = Some ZeroDivisionError"
    and "scale_env = Inr sc \<Longrightarrow> sc \<noteq> 0 \<Longrightarrow> k < steps \<Longrightarrow>
         sl k (step_sleep_of dur sc) = Some e \<Longrightarrow>
         \<forall>k'<k. sl k' (step_sleep_of dur sc) = None \<Longrightarrow>
           status (last T) = ''failed'' \<and> error (last T) = Some e"
    and "scale_env = Inr sc \<Longrightarrow> sc \<noteq> 0 \<Longrightarrow> \<forall>k<steps. sl k (step_sleep_of dur sc) = None \<Longrightarrow>
           status (last T) = ''completed'' \<and> progress (last T) = 100 \<and> result (last T) \<noteq> None"
proof -
  let ?j1 = "j\<lparr>status := ''running''\<rparr>"
  let ?j2 = "j\<lparr>status := ''running'', progress := 0\<rparr>"
  note rc = run_cases [of scale_env j sl dur dev a vol ch eff, folded T_def]
  from rc consider
    (early) e' where "scale_env = Inl e' \<or> (scale_env = Inr 0 \<and> e' = ZeroDivisionError)"
      "T = [j, ?j1, ?j2, ?j2\<lparr>status := ''failed''\<rparr>,
            ?j2\<lparr>status := ''failed'', error := Some e'\<rparr>]"
  | (sleep) sc' tr e' where "scale_env = Inr sc'" "sc' \<noteq> 0"
      "progress_loop sl (step_sleep_of dur sc') 0 steps ?j2 = (tr, Inl e')"
      "T = [j, ?j1, ?j2] @ tr @
             [(last (?j2 # tr))\<lparr>status := ''failed''\<rparr>,
              (last (?j2 # tr))\<lparr>status := ''failed'', error := Some e'\<rparr>]"
  | (finished) sc' tr j3 res where "scale_env = Inr sc'" "sc' \<noteq> 0"
      "progress_loop sl (step_sleep_of dur sc') 0 steps ?j2 = (tr, Inr j3)"
      "T = [j, ?j1, ?j2] @ tr @
             [j3\<lparr>status := ''completed''\<rparr>, j3\<lparr>status := ''completed'', progress := 100\<rparr>,
              j3\<lparr>status := ''completed'', progress := 100, result := Some res\<rparr>]"
    by blast
  note cases3 = this
  show "scale_env = Inl e \<Longrightarrow> status (last T) = ''failed'' \<and> error (last T) = Some e"
  proof -
    assume h: "scale_env = Inl e"
    from cases3 show ?thesis
    proof cases
      case early
      then show ?thesis using h by auto
    next
      case sleep
      then show ?thesis using h by simp
    next
      case finished
      then show ?thesis using h by simp
    qed
  qed
  show "scale_env = Inr 0 \<Longrightarrow>
           status (last T) = ''failed'' \<and> error (last T) = Some ZeroDivisionError"
  proof -
    assume h: "scale_env = Inr 0"
    from cases3 show ?thesis
    proof cases
      case early
      then show ?thesis using h by auto
    next
      case sleep
      then show ?thesis using h by simp
    next
      case finished
      then show ?thesis using h by simp
    qed
  qed
  show "scale_env = Inr sc \<Longrightarrow> sc \<noteq> 0 \<Longrightarrow> k < steps \<Longrightarrow>
         sl k (step_sleep_of dur sc) = Some e \<Longrightarrow>
         \<forall>k'<k. sl k' (step_sleep_of dur sc) = None \<Longrightarrow>
           status (last T) = ''failed'' \<and> error (last T) = Some e"
  proof -
    assume h: "scale_env = Inr sc" "sc \<noteq> 0" "k < steps"
      "sl k (step_sleep_of dur sc) = Some e" "\<forall>k'<k. sl k' (step_sleep_of dur sc) = None"
    from cases3 show ?thesis
    proof cases
      case early
      then show ?thesis using h(1,2) by auto
    next
      case sleep
      have sc: "sc' = sc" using sleep(1) h(1) by simp
      obtain k1 where k1: "k1 < steps" "sl k1 (step_sleep_of dur sc) = Some e'"
        "\<forall>k'<k1. sl k' (step_sleep_of dur sc) = None"
        using loop_from_start(5) [OF sleep(3) refl] sc by blast
      have "k1 = k"
      proof (rule ccontr)
        assume "k1 \<noteq> k"
        then consider "k1 < k" | "k < k1" by linarith
        then show False
        proof cases
          case 1
          then show False using h(5) k1(2) by simp
        next
          case 2
          then show False using k1(3) h(4) by simp
        qed
      qed
      then have "e' = e" using k1(2) h(4) by simp
      then show ?thesis by (simp add: sleep(4))
    next
      case finished
      have sc: "sc' = sc" using finished(1) h(1) by simp
      have "sl k (step_sleep_of dur sc) = None"
        using progress_loop_completes [OF finished(3), of k] h(3) sc by simp
      then show ?thesis using h(4) by simp
    qed
  qed
  show "scale_env = Inr sc \<Longrightarrow> sc \<noteq> 0 \<Longrightarrow> \<forall>k<steps. sl k (step_sleep_of dur sc) = None \<Longrightarrow>
           status (last T) = ''completed'' \<and> progress (last T) = 100 \<and> result (last T) \<noteq> None"
  proof -
    assume h: "scale_env = Inr sc" "sc \<noteq> 0" "\<forall>k<steps. sl k (step_sleep_of dur sc) = None"
    from cases3 show ?thesis
    proof cases
      case early
      then show ?thesis using h(1,2) by auto
    next
      case sleep
      have sc: "sc' = sc" using sleep(1) h(1) by simp
      obtain k1 where "k1 < steps" "sl k1 (step_sleep_of dur sc) = Some e'"
        using loop_from_start(5) [OF sleep(3) refl] sc by blast
      then show ?thesis using h(3) by simp
    next
      case finished
      then show ?thesis by (simp add: finished(4))
    qed
  qed
qed


lemma start_treatment_registers_queued:
  "start_treatment new_id area_arg device_arg volume flow current_hardness = Inr (j, d, h) \<Longrightarrow>
     status j = ''queued'' \<and> progress j = 0 \<and> result j = None \<and> error j = None \<and>
     job_id j = new_id"
  by (auto simp: start_treatment_def Let_def split: option.splits if_splits)

lemma job_status_unknown: "JOBS jid = None \<Longrightarrow> job_status JOBS jid = Inl ''Job not found''"
  by (simp add: job_status_def)

text \<open>
  C9 (as the code has it).  Along the worker's run of a job registered as queued with
  progress 0, the status reads queued, then running, then completed or failed, in this
  order; the progress never decreases; every completed state has progress 100; an
  exception (reading the time scale, dividing by a zero scale, or in a sleep) ends the
  run in the failed state with that exception recorded, and a run without exception
  ends completed with progress 100 and a result.
\<close>

theorem job_lifecycle:
  fixes j :: job and scale_env :: "py_error + rat" and sl :: "nat \<Rightarrow> rat \<Rightarrow> py_error option"
    and dur :: rat and dev :: string and a :: string and vol :: rat and ch :: "rat option"
    and eff :: rat
  defines "T \<equiv> job_trace j scale_env sl dur dev a vol ch eff"
  assumes "status j = ''queued''" and "progress j = 0"
  shows "(\<exists>n m final. (final = ''completed'' \<or> final = ''failed'') \<and>
            map status T = ''queued'' # replicate (Suc n) ''running'' @ replicate (Suc m) final)
    \<and> sorted (map progress T)
    \<and> (\<forall>x\<in>set T. status x = ''completed'' \<longrightarrow> progress x = 100)
    \<and> (\<forall>e. scale_env = Inl e \<longrightarrow> status (last T) = ''failed'' \<and> error (last T) = Some e)
    \<and> (scale_env = Inr 0 \<longrightarrow>
          status (last T) = ''failed'' \<and> error (last T) = Some ZeroDivisionError)
    \<and> (\<forall>sc k e. scale_env = Inr sc \<and> sc \<noteq> 0 \<and> k < steps \<and>
          sl k (step_sleep_of dur sc) = Some e \<and>
          (\<forall>k'<k. sl k' (step_sleep_of dur sc) = None) \<longrightarrow>
          status (last T) = ''failed'' \<and> error (last T) = Some e)
    \<and> (\<forall>sc. scale_env = Inr sc \<and> sc \<noteq> 0 \<and> (\<forall>k<steps. sl k (step_sleep_of dur sc) = None) \<longrightarrow>
          status (last T) = ''completed'' \<and> progress (last T) = 100 \<and> result (last T) \<noteq> None)"
proof (intro conjI allI impI)
  show "\<exists>n m final. (final = ''completed'' \<or> final = ''failed'') \<and>
            map status T = ''queued'' # replicate (Suc n) ''running'' @ replicate (Suc m) final"
    unfolding T_def by (rule job_trace_props(1) [OF assms(2,3)])
  show "sorted (map progress T)"
    unfolding T_def by (rule job_trace_props(2) [OF assms(2,3)])
  show "\<forall>x\<in>set T. status x = ''completed'' \<longrightarrow> progress x = 100"
    unfolding T_def by (rule job_trace_props(3) [OF assms(2,3)])
next
  fix e assume h: "scale_env = Inl e"
  show "status (last T) = ''failed''" and "error (last T) = Some e"
    using job_outcome(1) [OF h, of j sl dur dev a vol ch eff] by (simp_all add: T_def)
next
  assume h: "scale_env = Inr 0"
  show "status (last T) = ''failed''" and "error (last T) = Some ZeroDivisionError"
    using job_outcome(2) [OF h, of j sl dur dev a vol ch eff] by (simp_all add: T_def)
next
  fix sc k e
  assume h: "scale_env = Inr sc \<and> sc \<noteq> 0 \<and> k < steps \<and>
          sl k (step_sleep_of dur sc) = Some e \<and>
          (\<forall>k'<k. sl k' (step_sleep_of dur sc) = None)"
  then have "status (last T) = ''failed'' \<and> error (last T) = Some e"
    unfolding T_def by (intro job_outcome(3) [of scale_env sc k sl dur e]) simp_all
  then show "status (last T) = ''failed''" and "error (last T) = Some e"
    by simp_all
next
  fix sc
  assume h: "scale_env = Inr sc \<and> sc \<noteq> 0 \<and> (\<forall>k<steps. sl k (step_sleep_of dur sc) = None)"
  then have r: "status (last T) = ''completed'' \<and> progress (last T) = 100 \<and> result (last T) \<noteq> None"
    unfolding T_def by (intro job_outcome(4) [of scale_env sc sl dur]) simp_all
  from r show "status (last T) = ''completed''" by simp
  from r show "progress (last T) = 100" by simp
  from r show "result (last T) \<noteq> None" by blast
qed


theorem job_lifecycle_witness:
  "status queued_job = ''queued'' \<and> progress queued_job = 0 \<and>
   sorted (map progress
     (job_trace queued_job (Inr 1) quiet_sleep 60 ''RO'' ''Whitefield'' 10 (Some 200) (95 / 100))) \<and>
   status (last
     (job_trace queued_job (Inr 1) quiet_sleep 60 ''RO'' ''Whitefield'' 10 (Some 200) (95 / 100)))
     = ''completed'' \<and>
   progress (last
     (job_trace queued_job (Inr 1) quiet_sleep 60 ''RO'' ''Whitefield'' 10 (Some 200) (95 / 100)))
     = 100 \<and>
   status (last
     (job_trace queued_job (Inl ValueError) quiet_sleep 60 ''RO'' ''Whitefield'' 10 (Some 200)
        (95 / 100))) = ''failed'' \<and>
   error (last
     (job_trace queued_job (Inl ValueError) quiet_sleep 60 ''RO'' ''Whitefield'' 10 (Some 200)
        (95 / 100))) = Some ValueError"
  using job_lifecycle [where j = queued_job and scale_env = "Inr 1" and sl = quiet_sleep
      and dur = 60 and dev = "''RO''" and a = "''Whitefield''" and vol = 10 and ch = "Some 200"
      and eff = "95 / 100"]
    job_lifecycle [where j = queued_job and scale_env = "Inl ValueError" and sl = quiet_sleep
      and dur = 60 and dev = "''RO''" and a = "''Whitefield''" and vol = 10 and ch = "Some 200"
      and eff = "95 / 100"]
  by (simp add: queued_job_def quiet_sleep_def)

text \<open>
  C9 as stated fails in one point: the progress reaches 100 at the tenth increment,
  while the status is still running, before the job is marked completed.
\<close>

theorem progress_100_while_running:
  "status (job_trace queued_job (Inr 1) quiet_sleep 60 ''RO'' ''Whitefield'' 10 (Some 200)
             (95 / 100) ! 12) = ''running'' \<and>
   progress (job_trace queued_job (Inr 1) quiet_sleep 60 ''RO'' ''Whitefield'' 10 (Some 200)
             (95 / 100) ! 12) = 100"
  by (simp add: job_trace_def run_treatment_job_def queued_job_def quiet_sleep_def Let_def
        ten_steps progress_loop_Suc del: progress_loop.simps(2))

end
